theory Spec2Isabelle
  imports Complex_Main "HOL-Library.Word"
begin

unbundle bit_operations_syntax

section \<open>Python primitives used by the pipeline\<close>

text \<open>
  The numbers the detector returns are single-precision floats (\<open>numpy.float32\<close>); the
  threshold is a Python float. A float is modelled by the real it denotes (a finite
  float is a dyadic rational); NaN and the infinities are outside the model. Where
  NumPy computes in single precision, the model rounds to single precision.
\<close>

text \<open>Every exception the modelled code can raise, or let through from a library.\<close>

datatype error =
    AttributeError
  | TypeError
  | IndexError
  | CvError
  | ZeroDivisionError
  | TimeoutException
  | ValueError_DeviceCount
  | ValueError_BaslerConfig nat
  | ValueError_NotADict
  | Exception_ConfigNotFound
  | Exception_JSONDecode
  | Exception_VideoSource
  | OSError
  | LibraryError nat

text \<open>\<open>str(n)\<close> for an integer: decimal digits, a minus sign for negatives.\<close>

definition digit_char :: "nat \<Rightarrow> char" where
  "digit_char d = ''0123456789'' ! d"

fun str_nat :: "nat \<Rightarrow> string" where
  "str_nat n = (if n < 10 then [digit_char n] else str_nat (n div 10) @ [digit_char (n mod 10)])"

declare str_nat.simps [simp del]

definition str_int :: "int \<Rightarrow> string" where
  "str_int i = (if i < 0 then CHR ''-'' # str_nat (nat (- i)) else str_nat (nat i))"

text \<open>\<open>int(x)\<close> for a float: truncation towards zero.\<close>

definition py_int :: "real \<Rightarrow> int" where
  "py_int x = (if 0 \<le> x then \<lfloor>x\<rfloor> else \<lceil>x\<rceil>)"

text \<open>Rounding to the nearest integer, ties to the even one (\<open>rint\<close>).\<close>

definition round_half_even :: "real \<Rightarrow> int" where
  "round_half_even x =
     (let f = \<lfloor>x\<rfloor>; r = x - of_int f
      in if r < 1 / 2 then f else if 1 / 2 < r then f + 1 else if even f then f else f + 1)"

text \<open>
  Rounding a real to single precision: 24 significant bits, exponents from \<open>-126\<close> to
  127, ties to even. \<open>f32_exponent\<close> is the greatest exponent in that range whose power
  of two is at most the magnitude (\<open>-126\<close> below the normal range, which gives the
  subnormal spacing). A magnitude beyond the largest float rounds to \<open>2^128\<close> or more,
  which stands for the infinity: it compares with every finite float as the infinity
  does.
\<close>

primrec find_exponent :: "nat \<Rightarrow> real \<Rightarrow> int" where
  "find_exponent 0 a = - 126"
| "find_exponent (Suc n) a =
     (if 2 powi (int (Suc n) - 126) \<le> a then int (Suc n) - 126 else find_exponent n a)"

definition f32_exponent :: "real \<Rightarrow> int" where
  "f32_exponent x = find_exponent 253 \<bar>x\<bar>"

definition fl32 :: "real \<Rightarrow> real" where
  "fl32 x = (let q = 2 powi (f32_exponent x - 23) in of_int (round_half_even (x / q)) * q)"

text \<open>
  A confidence is the network's score for a box, a number from 0 to 1.
  \<open>prob_of\<close> names the confidence with a given value (a value outside the range is
  clamped into it).
\<close>

typedef prob = "{x :: real. 0 \<le> x \<and> x \<le> 1}"
  morphisms prob_val Abs_prob
  by (rule exI [of _ 0]) simp

definition prob_of :: "real \<Rightarrow> prob" where
  "prob_of x = Abs_prob (min 1 (max 0 x))"

text \<open>
  \<open>round(x, 2)\<close> on a \<open>numpy.float32\<close> multiplies by 100 in single precision, rounds
  the product to the nearest integer, ties to even, and divides by 100 in single
  precision. \<open>round2\<close> is that integer, the number of hundredths. For a confidence it
  lies between 0 and 100, and \<open>str\<close> of the quotient prints the shortest decimal that
  denotes the float, which is the decimal of the hundredths: at least one digit after
  the point and no trailing zero beyond it.
\<close>

definition round2 :: "real \<Rightarrow> int" where
  "round2 x = round_half_even (fl32 (x * 100))"

definition str_hundredths :: "nat \<Rightarrow> string" where
  "str_hundredths h =
     str_nat (h div 100) @ ''.'' @
       (if h mod 10 = 0 then [digit_char (h mod 100 div 10)]
        else [digit_char (h mod 100 div 10), digit_char (h mod 10)])"

definition str_round2 :: "prob \<Rightarrow> string" where
  "str_round2 p = str_hundredths (nat (round2 (prob_val p)))"

section \<open>Frames and the annotator (frontend/image\_displayer.py)\<close>

text \<open>
  A frame is an image buffer that the annotator mutates in place. The model keeps the
  captured pixels and, in order, the primitives drawn on them since capture.
\<close>

datatype draw_op =
    Rectangle "int \<times> int" "int \<times> int"
  | PutText string "int \<times> int"

record frame =
  pixels :: "nat list list"
  drawn :: "draw_op list"

text \<open>One row of \<open>boxes.data\<close>: \<open>obj[0..3]\<close> the box, \<open>obj[4]\<close> the confidence, \<open>obj[5]\<close> the class.\<close>

record detection =
  x1 :: real
  y1 :: real
  x2 :: real
  y2 :: real
  conf :: prob
  cls :: real

record monitor =
  mon_x :: int
  mon_y :: int

record image_displayer =
  monitors :: "monitor list"

text \<open>What the program prints; the message texts are not modelled.\<close>

datatype diag =
    MonitorNotFound int
  | EmptyImage
  | TypeOfImgsz
  | UsingDevice
  | FPS real
  | BaslerConfigLoaded nat
  | BaslerConfigError

text \<open>Calls that reach the outside world, in the order the program makes them.\<close>

datatype event =
    Print diag
  | Predict "frame option" int
  | NamedWindow string
  | SetWindowFullscreen string
  | Imshow string frame
  | WaitKey
  | DestroyAllWindows
  | CreateDevice nat
  | CameraOpen nat
  | LoadFeatures nat
  | StartGrabbing nat
  | StopGrabbing nat
  | CameraClose nat
  | VideoCaptureOpen
  | VideoCaptureRelease
  | OpenFile string

definition get_monitors_positions :: "image_displayer \<Rightarrow> (int \<times> int) list" where
  "get_monitors_positions d = map (\<lambda>m. (mon_x m, mon_y m)) (monitors d)"

text \<open>
  The OpenCV binding converts every coordinate of a point to a C \<open>int\<close> before the call
  and rejects the call when one does not fit.
\<close>

definition c_int :: "int \<Rightarrow> bool" where
  "c_int i \<longleftrightarrow> - (2 ^ 31) \<le> i \<and> i < 2 ^ 31"

definition box_fits :: "detection \<Rightarrow> bool" where
  "box_fits obj \<longleftrightarrow>
     c_int (py_int (x1 obj)) \<and> c_int (py_int (y1 obj)) \<and>
     c_int (py_int (x2 obj)) \<and> c_int (py_int (y2 obj))"

text \<open>
  \<open>one_object_display\<close>: \<open>cv2.rectangle\<close> then \<open>cv2.putText\<close> on the frame. An image
  that is \<open>None\<close> is taken as an empty image: both calls draw nothing and return, and
  the frame stays absent.
\<close>

definition one_object_display :: "frame option \<Rightarrow> detection \<Rightarrow> string \<Rightarrow> error + frame option" where
  "one_object_display array cur_obj des =
     (if \<not> box_fits cur_obj then Inl CvError
      else case array of
        None \<Rightarrow> Inr None
      | Some f \<Rightarrow>
          Inr (Some (f\<lparr>drawn := drawn f @
            [Rectangle (py_int (x1 cur_obj), py_int (y1 cur_obj))
                       (py_int (x2 cur_obj), py_int (y2 cur_obj)),
             PutText des (py_int (x1 cur_obj), py_int (y1 cur_obj))]\<rparr>)))"

text \<open>\<open>xs[i]\<close> on a list: a negative index counts from the end, an index outside the list raises.\<close>

definition py_index :: "'a list \<Rightarrow> int \<Rightarrow> error + 'a" where
  "py_index xs i =
     (if 0 \<le> i \<and> i < int (length xs) then Inr (xs ! nat i)
      else if i < 0 \<and> - int (length xs) \<le> i then Inr (xs ! nat (int (length xs) + i))
      else Inl IndexError)"

definition window_name :: "int \<Rightarrow> string" where
  "window_name monitor_number = ''Monitor '' @ str_int monitor_number"

text \<open>
  \<open>show_frame_on_monitor\<close>: the events it causes, and whether it returns or raises. The
  position read from \<open>get_monitors_positions\<close> is not used after the lookup.
\<close>

definition show_frame_on_monitor ::
  "image_displayer \<Rightarrow> frame option \<Rightarrow> int \<Rightarrow> event list \<times> (error + unit)" where
  "show_frame_on_monitor d fr monitor_number =
     (if monitor_number \<ge> int (length (monitors d)) \<or> monitor_number < 0
      then ([Print (MonitorNotFound monitor_number)], Inr ())
      else case fr of
        None \<Rightarrow> ([Print EmptyImage], Inr ())
      | Some f \<Rightarrow>
          (case py_index (get_monitors_positions d) monitor_number of
             Inl e \<Rightarrow> ([], Inl e)
           | Inr xy \<Rightarrow>
               ([NamedWindow (window_name monitor_number),
                 SetWindowFullscreen (window_name monitor_number),
                 Imshow (window_name monitor_number) f], Inr ())))"

text \<open>The events that create or change a window.\<close>

fun is_window_event :: "event \<Rightarrow> bool" where
  "is_window_event (NamedWindow _) = True"
| "is_window_event (SetWindowFullscreen _) = True"
| "is_window_event (Imshow _ _) = True"
| "is_window_event _ = False"

section \<open>Detection and annotation (backend/object\_detection\_models.py)\<close>

text \<open>
  The loaded network is outside the repository: \<open>model.predict(frame, imgsz)\<close> is a
  function of the frame and the image size that returns one list of rows per result
  item, or raises.
\<close>

type_synonym model = "frame option \<Rightarrow> int \<Rightarrow> error + detection list list"

text \<open>
  The body of the inner loop for one row \<open>obj\<close>. \<open>obj[4] > current_model_conf\<close> compares
  a \<open>numpy.float32\<close> with a Python float: NumPy 2 converts the Python float to single
  precision and compares there. \<open>labels_translator\<close> defaults to \<open>None\<close>, and \<open>in None\<close>
  raises a TypeError.
\<close>

definition annotate_obj ::
  "real \<Rightarrow> (string \<rightharpoonup> string) option \<Rightarrow> frame option \<Rightarrow> detection \<Rightarrow> error + frame option" where
  "annotate_obj current_model_conf labels_translator fr obj =
     (if prob_val (conf obj) > fl32 current_model_conf then
        (case labels_translator of
           None \<Rightarrow> Inl TypeError
         | Some translate \<Rightarrow>
             (case translate (str_int (py_int (cls obj))) of
                None \<Rightarrow> Inr fr
              | Some descr \<Rightarrow>
                  one_object_display fr obj (descr @ '' '' @ str_round2 (conf obj))))
      else Inr fr)"

fun annotate_boxes ::
  "real \<Rightarrow> (string \<rightharpoonup> string) option \<Rightarrow> frame option \<Rightarrow> detection list \<Rightarrow> error + frame option" where
  "annotate_boxes c t fr [] = Inr fr"
| "annotate_boxes c t fr (obj # objs) =
     (case annotate_obj c t fr obj of
        Inl e \<Rightarrow> Inl e
      | Inr fr' \<Rightarrow> annotate_boxes c t fr' objs)"

fun annotate_results ::
  "real \<Rightarrow> (string \<rightharpoonup> string) option \<Rightarrow> frame option \<Rightarrow> detection list list \<Rightarrow> error + frame option" where
  "annotate_results c t fr [] = Inr fr"
| "annotate_results c t fr (item # items) =
     (case annotate_boxes c t fr item of
        Inl e \<Rightarrow> Inl e
      | Inr fr' \<Rightarrow> annotate_results c t fr' items)"

text \<open>\<open>detect_objects\<close> returns the events it caused and the frame as it left it, or the error raised.\<close>

definition detect_objects ::
  "frame option \<Rightarrow> model \<Rightarrow> real \<Rightarrow> int \<Rightarrow> (string \<rightharpoonup> string) option
     \<Rightarrow> event list \<times> (error + frame option)" where
  "detect_objects fr m current_model_conf imgsz labels_translator =
     ([Print TypeOfImgsz, Predict fr imgsz],
      case m fr imgsz of
        Inl e \<Rightarrow> Inl e
      | Inr details_nn_results \<Rightarrow>
          annotate_results current_model_conf labels_translator fr details_nn_results)"

text \<open>The block one surviving row adds to the frame, and the two tests of the filter.\<close>

definition box_and_label :: "detection \<Rightarrow> string \<Rightarrow> draw_op list" where
  "box_and_label obj descr =
     [Rectangle (py_int (x1 obj), py_int (y1 obj)) (py_int (x2 obj), py_int (y2 obj)),
      PutText (descr @ '' '' @ str_round2 (conf obj)) (py_int (x1 obj), py_int (y1 obj))]"

definition class_key :: "detection \<Rightarrow> string" where
  "class_key obj = str_int (py_int (cls obj))"

definition survives :: "real \<Rightarrow> (string \<rightharpoonup> string) \<Rightarrow> detection \<Rightarrow> bool" where
  "survives thr tr obj \<longleftrightarrow> fl32 thr < prob_val (conf obj) \<and> class_key obj \<in> dom tr"

subsection \<open>The detection loop\<close>

text \<open>
  What one pass of \<open>while True\<close> receives from outside: the outcome of
  \<open>captor.get_frame()\<close> if it is called, the difference of the two \<open>time.time()\<close>
  readings, and the value of \<open>cv2.waitKey(1)\<close>.
\<close>

record iteration_input =
  get_frame_result :: "error + bool \<times> frame option"
  elapsed_time :: real
  pressed_key :: int

datatype loop_state = Running | Stopped

text \<open>\<open>pressed_key & 0xFF == ord('q')\<close> on Python's unbounded integers.\<close>

definition quit_key :: "int \<Rightarrow> bool" where
  "quit_key k \<longleftrightarrow> k AND 0xFF = of_char CHR ''q''"

text \<open>The monitor the loop presents on: the default of \<open>monitor_number\<close>, as the call passes none.\<close>

definition default_monitor_number :: int where
  "default_monitor_number = 1"

text \<open>
  The three-way branch on \<open>camera_type\<close>. Neither captor class of the repository has a
  method \<open>capture_from_basler\<close>, so that branch raises an AttributeError.
\<close>

definition acquire :: "string \<Rightarrow> iteration_input \<Rightarrow> error + frame option" where
  "acquire camera_type inp =
     (if camera_type = ''basler'' then Inl AttributeError
      else if camera_type = ''usb'' then
        (case get_frame_result inp of
           Inl e \<Rightarrow> Inl e
         | Inr (ret, fr) \<Rightarrow> Inr fr)
      else Inr None)"

definition loop_iteration ::
  "model \<Rightarrow> (string \<rightharpoonup> string) option \<Rightarrow> real \<Rightarrow> image_displayer \<Rightarrow> int \<Rightarrow> string
     \<Rightarrow> iteration_input \<Rightarrow> event list \<times> (error + loop_state)" where
  "loop_iteration m translator cur_model_conf displayer imgsz camera_type inp =
     (case acquire camera_type inp of
        Inl e \<Rightarrow> ([], Inl e)
      | Inr fr \<Rightarrow>
          (case detect_objects fr m cur_model_conf imgsz translator of
             (evs1, Inl e) \<Rightarrow> (evs1, Inl e)
           | (evs1, Inr fr') \<Rightarrow>
               (case show_frame_on_monitor displayer fr' default_monitor_number of
                  (evs2, Inl e) \<Rightarrow> (evs1 @ evs2, Inl e)
                | (evs2, Inr _) \<Rightarrow>
                    if elapsed_time inp = 0 then (evs1 @ evs2, Inl ZeroDivisionError)
                    else if quit_key (pressed_key inp)
                    then (evs1 @ evs2 @ [Print (FPS (1 / elapsed_time inp)), WaitKey,
                                         DestroyAllWindows], Inr Stopped)
                    else (evs1 @ evs2 @ [Print (FPS (1 / elapsed_time inp)), WaitKey],
                          Inr Running))))"

text \<open>
  The loop over a finite prefix of its inputs. It ends \<open>Stopped\<close> at a \<open>break\<close>, with the
  error at a raise, and is still \<open>Running\<close> when the prefix is used up.
\<close>

fun run_loop ::
  "model \<Rightarrow> (string \<rightharpoonup> string) option \<Rightarrow> real \<Rightarrow> image_displayer \<Rightarrow> int \<Rightarrow> string
     \<Rightarrow> iteration_input list \<Rightarrow> event list \<times> (error + loop_state)" where
  "run_loop m t c d imgsz camera_type [] = ([], Inr Running)"
| "run_loop m t c d imgsz camera_type (inp # inps) =
     (case loop_iteration m t c d imgsz camera_type inp of
        (evs, Inr Running) \<Rightarrow>
          (case run_loop m t c d imgsz camera_type inps of (evs', r) \<Rightarrow> (evs @ evs', r))
      | (evs, r) \<Rightarrow> (evs, r))"

text \<open>\<open>run_model\<close>: \<open>load_model\<close> prints the device and builds the network from the weights, which may fail.\<close>

definition run_model ::
  "(string \<Rightarrow> error + model) \<Rightarrow> (string \<rightharpoonup> string) option \<Rightarrow> string \<Rightarrow> real
     \<Rightarrow> image_displayer \<Rightarrow> int \<Rightarrow> string \<Rightarrow> iteration_input list
     \<Rightarrow> event list \<times> (error + loop_state)" where
  "run_model yolo translator weights cur_model_conf displayer imgsz camera_type inps =
     (case yolo weights of
        Inl e \<Rightarrow> ([Print UsingDevice], Inl e)
      | Inr m \<Rightarrow>
          (case run_loop m translator cur_model_conf displayer imgsz camera_type inps of
             (evs, r) \<Rightarrow> (Print UsingDevice # evs, r)))"

section \<open>Frame sources (backend/image\_captor.py)\<close>

subsection \<open>The industrial camera\<close>

text \<open>
  The state of the \<open>pylon.InstantCamera\<close> held in \<open>self.camera\<close>: which enumerated
  device it was created from, and what \<open>IsOpen()\<close> and \<open>IsGrabbing()\<close> answer. A captor
  is an object whose constructor has assigned \<open>self.camera\<close>; the converter it also
  holds plays no part in what follows.
\<close>

record instant_camera =
  device :: nat
  is_open :: bool
  is_grabbing :: bool

record basler_image_captor =
  camera :: instant_camera

text \<open>
  One arm of the constructor for device \<open>k\<close>: create, open, load the feature file
  (\<open>load_ok\<close> says whether \<open>FeaturePersistence.Load\<close> returns), start grabbing.
\<close>

definition open_and_configure :: "nat \<Rightarrow> bool \<Rightarrow> event list \<times> (error + basler_image_captor)" where
  "open_and_configure k load_ok =
     (if load_ok
      then ([CreateDevice k, CameraOpen k, LoadFeatures k, Print (BaslerConfigLoaded k),
             StartGrabbing k],
            Inr \<lparr>camera = \<lparr>device = k, is_open = True, is_grabbing = True\<rparr>\<rparr>)
      else ([CreateDevice k, CameraOpen k, LoadFeatures k, Print BaslerConfigError],
            Inl (ValueError_BaslerConfig k)))"

text \<open>\<open>BaslerImageCaptor.__init__\<close>, given the number of devices \<open>EnumerateDevices\<close> returns.\<close>

definition basler_init :: "nat \<Rightarrow> int \<Rightarrow> bool \<Rightarrow> event list \<times> (error + basler_image_captor)" where
  "basler_init n_devices camera_index load_ok =
     (if (n_devices = 1 \<or> n_devices = 2) \<and> camera_index = 0 then open_and_configure 0 load_ok
      else if n_devices = 2 \<and> camera_index = 1 then open_and_configure 1 load_ok
      else ([], Inl ValueError_DeviceCount))"

text \<open>
  What the camera has for one \<open>RetrieveResult\<close> call: nothing within the timeout, a
  result whose grab did not succeed, or an image. The second argument of
  \<open>RetrieveResult\<close> chooses what a timeout does.
\<close>

datatype grab = GrabTimedOut | GrabFailed | GrabOK "nat list list"

datatype timeout_handling = TimeoutHandling_Return | TimeoutHandling_ThrowException

definition retrieve_result :: "nat \<Rightarrow> timeout_handling \<Rightarrow> grab \<Rightarrow> error + grab" where
  "retrieve_result timeout_ms handling g =
     (if g = GrabTimedOut \<and> handling = TimeoutHandling_ThrowException
      then Inl TimeoutException else Inr g)"

text \<open>\<open>cv2.flip(img, 1)\<close> mirrors every row.\<close>

definition flip_horizontal :: "nat list list \<Rightarrow> nat list list" where
  "flip_horizontal img = map rev img"

definition basler_get_frame :: "basler_image_captor \<Rightarrow> grab \<Rightarrow> error + bool \<times> frame option" where
  "basler_get_frame c g =
     (if is_grabbing (camera c) then
        (case retrieve_result 5000 TimeoutHandling_ThrowException g of
           Inl e \<Rightarrow> Inl e
         | Inr (GrabOK img) \<Rightarrow> Inr (True, Some \<lparr>pixels = flip_horizontal img, drawn = []\<rparr>)
         | Inr _ \<Rightarrow> Inr (False, None))
      else Inr (False, None))"

definition basler_release :: "basler_image_captor \<Rightarrow> event list \<times> basler_image_captor" where
  "basler_release c =
     (let cam = camera c;
          (evs1, cam1) = (if is_grabbing cam
                          then ([StopGrabbing (device cam)], cam\<lparr>is_grabbing := False\<rparr>)
                          else ([], cam));
          (evs2, cam2) = (if is_open cam1
                          then ([CameraClose (device cam1)], cam1\<lparr>is_open := False\<rparr>)
                          else ([], cam1))
      in (evs1 @ evs2, c\<lparr>camera := cam2\<rparr>))"

subsection \<open>The webcam\<close>

text \<open>\<open>self.vid\<close> is kept as what \<open>isOpened()\<close> answers.\<close>

record web_cam_image_captor =
  vid_is_opened :: bool

text \<open>The constructor; \<open>opened\<close> says whether \<open>cv2.VideoCapture\<close> got the source open.\<close>

definition webcam_init :: "bool \<Rightarrow> event list \<times> (error + web_cam_image_captor)" where
  "webcam_init opened =
     ([VideoCaptureOpen],
      if \<not> opened then Inl Exception_VideoSource else Inr \<lparr>vid_is_opened = True\<rparr>)"

definition webcam_get_frame :: "web_cam_image_captor \<Rightarrow> bool \<times> frame option \<Rightarrow> bool \<times> frame option" where
  "webcam_get_frame c rd =
     (if vid_is_opened c then (case rd of (ret, fr) \<Rightarrow> if ret then (ret, fr) else (ret, None))
      else (False, None))"

definition webcam_release :: "web_cam_image_captor \<Rightarrow> event list \<times> web_cam_image_captor" where
  "webcam_release c =
     (if vid_is_opened c then ([VideoCaptureRelease], c\<lparr>vid_is_opened := False\<rparr>) else ([], c))"

subsection \<open>Either source\<close>

text \<open>
  A captor object as \<open>release\<close> can meet it. \<open>__new__\<close> makes the object before
  \<open>__init__\<close> runs, and \<open>__del__\<close> calls \<open>release\<close> on it also when \<open>__init__\<close> raised.
  \<open>BaslerUnassigned\<close> is the industrial-camera object whose constructor raised the
  device-count error, before any assignment to \<open>self.camera\<close>.
\<close>

datatype captor =
    Basler basler_image_captor
  | BaslerUnassigned
  | WebCam web_cam_image_captor

text \<open>The object the industrial-camera constructor leaves behind, whether it returned or raised.\<close>

definition basler_object :: "nat \<Rightarrow> int \<Rightarrow> bool \<Rightarrow> captor" where
  "basler_object n_devices camera_index load_ok =
     (if (n_devices = 1 \<or> n_devices = 2) \<and> camera_index = 0
      then Basler \<lparr>camera = \<lparr>device = 0, is_open = True, is_grabbing = load_ok\<rparr>\<rparr>
      else if n_devices = 2 \<and> camera_index = 1
      then Basler \<lparr>camera = \<lparr>device = 1, is_open = True, is_grabbing = load_ok\<rparr>\<rparr>
      else BaslerUnassigned)"

text \<open>The webcam constructor assigns \<open>self.vid\<close> before it tests it.\<close>

definition webcam_object :: "bool \<Rightarrow> captor" where
  "webcam_object opened = WebCam \<lparr>vid_is_opened = opened\<rparr>"

text \<open>
  \<open>release\<close> on either class. Reading \<open>self.camera\<close> on an object that has no such
  attribute raises an AttributeError.
\<close>

fun release :: "captor \<Rightarrow> event list \<times> (error + captor)" where
  "release (Basler c) = (case basler_release c of (evs, c') \<Rightarrow> (evs, Inr (Basler c')))"
| "release BaslerUnassigned = ([], Inl AttributeError)"
| "release (WebCam c) = (case webcam_release c of (evs, c') \<Rightarrow> (evs, Inr (WebCam c')))"

fun device_open :: "captor \<Rightarrow> bool" where
  "device_open (Basler c) = is_open (camera c)"
| "device_open BaslerUnassigned = False"
| "device_open (WebCam c) = vid_is_opened c"

text \<open>\<open>n\<close> calls of \<open>release\<close> in a row, up to the first that raises, with all the events they cause.\<close>

fun release_times :: "nat \<Rightarrow> captor \<Rightarrow> event list \<times> (error + captor)" where
  "release_times 0 c = ([], Inr c)"
| "release_times (Suc n) c =
     (case release c of
        (evs, Inl e) \<Rightarrow> (evs, Inl e)
      | (evs, Inr c') \<Rightarrow>
          (case release_times n c' of (evs', r) \<Rightarrow> (evs @ evs', r)))"

text \<open>The events that open a device.\<close>

fun is_open_event :: "event \<Rightarrow> bool" where
  "is_open_event (CameraOpen _) = True"
| "is_open_event VideoCaptureOpen = True"
| "is_open_event _ = False"

section \<open>The configuration singleton (backend/config\_loader.py)\<close>

datatype json =
    JObject "(string \<times> json) list"
  | JArray "json list"
  | JString string
  | JNumber real
  | JBool bool
  | JNull

text \<open>
  What \<open>open\<close> followed by \<open>json.load\<close> meets at the moment of one access: no file, a
  file that cannot be opened or decoded as text, text that is not JSON, or a JSON value.
\<close>

datatype file_content = FileMissing | Unreadable | Malformed | Parsed json

text \<open>
  The one instance with its attributes. \<open>config\<close> is \<open>None\<close> until the attribute has
  been assigned; \<open>is_loaded\<close> starts as the class attribute \<open>False\<close>.
\<close>

record config_loader =
  file_path :: "string option"
  is_loaded :: bool
  config :: "json option"

text \<open>\<open>__new__\<close>, given the class attribute \<open>_instance\<close>; the result is the instance it holds afterwards.\<close>

definition ConfigLoader_new :: "config_loader option \<Rightarrow> string option \<Rightarrow> config_loader" where
  "ConfigLoader_new instance fp =
     (case instance of
        None \<Rightarrow> \<lparr>file_path = fp, is_loaded = False, config = None\<rparr>
      | Some i \<Rightarrow> i)"

fun is_dict :: "json \<Rightarrow> bool" where
  "is_dict (JObject _) = True"
| "is_dict _ = False"

definition load_config ::
  "config_loader \<Rightarrow> file_content \<Rightarrow> event list \<times> (error + unit) \<times> config_loader" where
  "load_config s file =
     (case file_path s of
        None \<Rightarrow> ([], Inr (), s)
      | Some p \<Rightarrow>
          if \<not> is_loaded s \<and> p \<noteq> [] then
            (case file of
               FileMissing \<Rightarrow> ([OpenFile p], Inl Exception_ConfigNotFound, s)
             | Unreadable \<Rightarrow> ([OpenFile p], Inl OSError, s)
             | Malformed \<Rightarrow> ([OpenFile p], Inl Exception_JSONDecode, s)
             | Parsed j \<Rightarrow>
                 if is_dict j
                 then ([OpenFile p], Inr (), s\<lparr>config := Some j, is_loaded := True\<rparr>)
                 else ([OpenFile p], Inl ValueError_NotADict, s\<lparr>config := Some j\<rparr>))
          else ([], Inr (), s))"

definition get_config ::
  "config_loader \<Rightarrow> file_content \<Rightarrow> event list \<times> (error + json) \<times> config_loader" where
  "get_config s file =
     (case (if \<not> is_loaded s then load_config s file else ([], Inr (), s)) of
        (evs, Inl e, s') \<Rightarrow> (evs, Inl e, s')
      | (evs, Inr _, s') \<Rightarrow>
          (case config s' of
             None \<Rightarrow> (evs, Inl AttributeError, s')
           | Some j \<Rightarrow> (evs, Inr j, s')))"

text \<open>
  A sequence of accesses to \<open>get_config\<close>, each with the file as it is then: the events
  and the result of every access.
\<close>

fun accesses :: "config_loader \<Rightarrow> file_content list \<Rightarrow> (event list \<times> (error + json)) list" where
  "accesses s [] = []"
| "accesses s (file # files) =
     (case get_config s file of (evs, r, s') \<Rightarrow> (evs, r) # accesses s' files)"

text \<open>The error an access raises when the file cannot be loaded.\<close>

fun load_error :: "file_content \<Rightarrow> error" where
  "load_error FileMissing = Exception_ConfigNotFound"
| "load_error Unreadable = OSError"
| "load_error Malformed = Exception_JSONDecode"
| "load_error (Parsed j) = ValueError_NotADict"

fun loadable :: "file_content \<Rightarrow> bool" where
  "loadable (Parsed j) = is_dict j"
| "loadable _ = False"

section \<open>Properties\<close>

subsection \<open>Numbers\<close>

lemma prob_val_range: "0 \<le> prob_val p \<and> prob_val p \<le> 1"
  using prob_val [of p] by simp

lemma prob_val_prob_of: "prob_val (prob_of x) = min 1 (max 0 x)"
  by (simp add: prob_of_def Abs_prob_inverse)

lemma round_half_even_near: "\<bar>of_int (round_half_even z) - z\<bar> \<le> 1 / 2"
proof -
  have "of_int \<lfloor>z\<rfloor> \<le> z" and "z < of_int \<lfloor>z\<rfloor> + 1"
    by linarith+
  then show ?thesis
    by (auto simp: round_half_even_def Let_def)
qed

lemma find_exponent_cases:
  "find_exponent n a = - 126 \<or> 2 powi (find_exponent n a) \<le> a"
  by (induction n) auto

lemma f32_exponent_small:
  assumes "\<bar>y\<bar> < 128"
  shows "f32_exponent y \<le> 6"
proof (rule ccontr)
  assume "\<not> f32_exponent y \<le> 6"
  then have big: "7 \<le> f32_exponent y" by simp
  with find_exponent_cases [of 253 "\<bar>y\<bar>"]
  have "2 powi (f32_exponent y) \<le> \<bar>y\<bar>"
    by (auto simp: f32_exponent_def)
  moreover have "(2::real) powi 7 \<le> 2 powi (f32_exponent y)"
    using big by (intro power_int_increasing) simp_all
  ultimately show False using assms by simp
qed

lemma fl32_near:
  assumes "\<bar>y\<bar> < 128"
  shows "\<bar>fl32 y - y\<bar> \<le> 1 / 2 ^ 18"
proof -
  define q :: real where "q = 2 powi (f32_exponent y - 23)"
  have qpos: "0 < q" by (simp add: q_def)
  have "q \<le> 2 powi (- 17)"
    unfolding q_def using f32_exponent_small [OF assms]
    by (intro power_int_increasing) simp_all
  then have qle: "q \<le> 1 / 2 ^ 17"
    by (simp add: power_int_minus field_simps)
  have "fl32 y - y = (of_int (round_half_even (y / q)) - y / q) * q"
    using qpos by (simp add: fl32_def q_def [symmetric] Let_def field_simps)
  then have "\<bar>fl32 y - y\<bar> = \<bar>of_int (round_half_even (y / q)) - y / q\<bar> * q"
    using qpos by (simp add: abs_mult)
  also have "\<dots> \<le> (1 / 2) * q"
    using round_half_even_near [of "y / q"] qpos by (intro mult_right_mono) simp_all
  also have "\<dots> \<le> (1 / 2) * (1 / 2 ^ 17)"
    using qle by simp
  finally show ?thesis by simp
qed

lemma round2_prob:
  assumes "0 \<le> c" "c \<le> 1"
  shows "0 \<le> round2 c \<and> round2 c \<le> 100 \<and>
         \<bar>of_int (round2 c) - fl32 (c * 100)\<bar> \<le> 1 / 2 \<and>
         \<bar>of_int (round2 c) - c * 100\<bar> \<le> 1 / 2 + 1 / 2 ^ 18"
proof -
  have "\<bar>c * 100\<bar> < 128" using assms by simp
  from fl32_near [OF this] have f: "\<bar>fl32 (c * 100) - c * 100\<bar> \<le> 1 / 2 ^ 18" .
  have r: "\<bar>of_int (round2 c) - fl32 (c * 100)\<bar> \<le> 1 / 2"
    unfolding round2_def by (rule round_half_even_near)
  from f r have n: "\<bar>of_int (round2 c) - c * 100\<bar> \<le> 1 / 2 + 1 / 2 ^ 18"
    by linarith
  have "(1::real) / 2 ^ 18 < 1 / 4" by simp
  with n assms have "- 1 < (of_int (round2 c) :: real)" and "(of_int (round2 c) :: real) < 101"
    by linarith+
  then have "0 \<le> round2 c" and "round2 c \<le> 100"
    by linarith+
  with r n show ?thesis by simp
qed

text \<open>Rounding to single precision keeps 24 significant bits.\<close>

lemma fl32_error: "\<bar>fl32 x - x\<bar> \<le> \<bar>x\<bar> / 2 ^ 24 + 1 / 2 ^ 150"
proof -
  define e where "e = f32_exponent x"
  define q :: real where "q = 2 powi (e - 23)"
  define a :: real where "a = \<bar>x\<bar> / 2 ^ 24"
  define b :: real where "b = 1 / 2 ^ 150"
  have nonneg: "0 \<le> a" "0 \<le> b" by (simp_all add: a_def b_def)
  have qpos: "0 < q" by (simp add: q_def)
  have "fl32 x - x = (of_int (round_half_even (x / q)) - x / q) * q"
    using qpos by (simp add: fl32_def q_def e_def Let_def field_simps)
  then have "\<bar>fl32 x - x\<bar> = \<bar>of_int (round_half_even (x / q)) - x / q\<bar> * q"
    using qpos by (simp add: abs_mult)
  also have "\<dots> \<le> (1 / 2) * q"
    using round_half_even_near [of "x / q"] qpos by (intro mult_right_mono) simp_all
  finally have err: "\<bar>fl32 x - x\<bar> \<le> q / 2" by simp
  have q24: "q / 2 = 2 powi e / 2 ^ 24"
    by (simp add: q_def power_int_diff)
  from find_exponent_cases [of 253 "\<bar>x\<bar>"]
  have "e = - 126 \<or> 2 powi e \<le> \<bar>x\<bar>"
    by (simp add: e_def f32_exponent_def)
  then have "q / 2 \<le> a \<or> q / 2 = b"
  proof
    assume "e = - 126"
    then have "q / 2 = b"
      by (simp add: q_def b_def power_int_minus field_simps)
    then show ?thesis ..
  next
    assume "2 powi e \<le> \<bar>x\<bar>"
    then have "q / 2 \<le> a"
      unfolding q24 a_def by (simp add: divide_right_mono)
    then show ?thesis ..
  qed
  with err nonneg have "\<bar>fl32 x - x\<bar> \<le> a + b"
    by linarith
  then show ?thesis
    unfolding a_def b_def .
qed

lemma py_int_truncates:
  "\<bar>of_int (py_int x)\<bar> \<le> \<bar>x\<bar> \<and> \<bar>x - of_int (py_int x)\<bar> < 1"
proof (cases "0 \<le> x")
  case True
  then have p: "py_int x = \<lfloor>x\<rfloor>"
    by (simp add: py_int_def)
  have "of_int \<lfloor>x\<rfloor> \<le> x" and "x < of_int \<lfloor>x\<rfloor> + 1"
    by linarith+
  moreover from True have "(0::real) \<le> of_int \<lfloor>x\<rfloor>"
    by simp
  ultimately show ?thesis
    unfolding p using True by linarith
next
  case False
  then have p: "py_int x = \<lceil>x\<rceil>"
    by (simp add: py_int_def)
  have "x \<le> of_int \<lceil>x\<rceil>" and "of_int \<lceil>x\<rceil> < x + 1"
    by linarith+
  moreover from False have "\<lceil>x\<rceil> \<le> 0"
    by (simp add: ceiling_le_zero)
  then have "(of_int \<lceil>x\<rceil> :: real) \<le> 0"
    by simp
  ultimately show ?thesis
    unfolding p using False by linarith
qed

lemma str_nat_digit: "n < 10 \<Longrightarrow> str_nat n = [digit_char n]"
  by (simp add: str_nat.simps)

lemma fl32_half: "fl32 (1 / 2) = 1 / 2"
  by code_simp

lemma fl32_double_tenth:
  "fl32 (3602879701896397 / 36028797018963968) = 13421773 / 134217728"
  by code_simp

lemma round2_075: "round2 (3 / 4) = 75"
  by code_simp

lemma round2_091: "round2 (91 / 100) = 91"
  by code_simp

lemma round2_0876: "round2 (876 / 1000) = 88"
  by code_simp

lemma round2_0904: "round2 (904 / 1000) = 90"
  by code_simp

lemma round2_1: "round2 1 = 100"
  by code_simp

lemma str_nat_17: "str_nat 17 = ''17''"
  by code_simp

lemma round2_0545f: "round2 (9143583 / 16777216) = 54"
  by code_simp

subsection \<open>Filtering and annotation\<close>

lemma annotate_obj_Some:
  assumes "box_fits obj"
  shows "annotate_obj thr (Some tr) (Some f) obj =
     Inr (Some (f\<lparr>drawn := drawn f @
        (if survives thr tr obj then box_and_label obj (the (tr (class_key obj))) else [])\<rparr>))"
  using assms
  by (auto simp: annotate_obj_def survives_def class_key_def box_and_label_def
      one_object_display_def split: option.splits)

lemma annotate_boxes_Some:
  assumes "\<forall>obj \<in> set objs. box_fits obj"
  shows "annotate_boxes thr (Some tr) (Some f) objs =
     Inr (Some (f\<lparr>drawn := drawn f @
        concat (map (\<lambda>obj. box_and_label obj (the (tr (class_key obj))))
                    (filter (survives thr tr) objs))\<rparr>))"
  using assms
proof (induction objs arbitrary: f)
  case Nil
  show ?case by simp
next
  case (Cons obj objs)
  then show ?case
    by (simp add: annotate_obj_Some)
qed

lemma annotate_results_Some:
  assumes "\<forall>obj \<in> set (concat items). box_fits obj"
  shows "annotate_results thr (Some tr) (Some f) items =
     Inr (Some (f\<lparr>drawn := drawn f @
        concat (map (\<lambda>obj. box_and_label obj (the (tr (class_key obj))))
                    (filter (survives thr tr) (concat items)))\<rparr>))"
  using assms
proof (induction items arbitrary: f)
  case Nil
  show ?case by simp
next
  case (Cons item items)
  then show ?case
    by (simp add: annotate_boxes_Some)
qed

lemma survives_eq:
  "survives thr tr = (\<lambda>obj. fl32 thr < prob_val (conf obj) \<and> class_key obj \<in> dom tr)"
  by (rule ext) (simp add: survives_def)

text \<open>
  Claim C1, as the code has it. For every frame and every list of raw detections the
  model returns for it, with box corners that fit a C \<open>int\<close> as any frame has them,
  \<open>detect_objects\<close> returns without an error, causes no event beyond printing the type
  of the image size and calling the model, and has drawn on the frame one block (a
  rectangle and its text) per detection whose confidence strictly exceeds the threshold
  rounded to single precision and whose class, as the string of its integer, is a key
  of the label table: the blocks of exactly these detections, each once. A detection
  that fails either test leaves no trace. The rounded threshold differs from the
  threshold by at most one part in \<open>2^24\<close> of it and \<open>2^-150\<close>.
\<close>

theorem detect_objects_filter:
  assumes "m (Some f) imgsz = Inr results"
    and "\<forall>obj \<in> set (concat results). box_fits obj"
  shows "detect_objects (Some f) m thr imgsz (Some tr) =
     ([Print TypeOfImgsz, Predict (Some f) imgsz],
      Inr (Some (f\<lparr>drawn := drawn f @
        concat (map (\<lambda>obj. box_and_label obj (the (tr (class_key obj))))
          (filter (\<lambda>obj. fl32 thr < prob_val (conf obj) \<and> class_key obj \<in> dom tr)
             (concat results)))\<rparr>))) \<and>
     \<bar>fl32 thr - thr\<bar> \<le> \<bar>thr\<bar> / 2 ^ 24 + 1 / 2 ^ 150"
  using assms fl32_error [of thr]
  by (simp add: detect_objects_def annotate_results_Some survives_eq)

theorem detect_objects_filter_witness:
  "detect_objects (Some \<lparr>pixels = [[0, 1], [2, 3]], drawn = []\<rparr>)
     (\<lambda>fr sz. Inr [[\<lparr>x1 = 3/2, y1 = 27/10, x2 = 8, y2 = 9, conf = prob_of (3/4), cls = 17\<rparr>,
                     \<lparr>x1 = 1, y1 = 1, x2 = 2, y2 = 2, conf = prob_of (1/2), cls = 17\<rparr>],
                    [\<lparr>x1 = 4, y1 = 4, x2 = 6, y2 = 6, conf = prob_of (9/10), cls = 3\<rparr>]])
     (1/2) 640 (Some [''17'' \<mapsto> ''face''])
   = ([Print TypeOfImgsz, Predict (Some \<lparr>pixels = [[0, 1], [2, 3]], drawn = []\<rparr>) 640],
      Inr (Some \<lparr>pixels = [[0, 1], [2, 3]],
                 drawn = [Rectangle (1, 2) (8, 9), PutText ''face 0.75'' (1, 2)]\<rparr>))"
  using detect_objects_filter [of
      "\<lambda>fr sz. Inr [[\<lparr>x1 = 3/2, y1 = 27/10, x2 = 8, y2 = 9, conf = prob_of (3/4), cls = 17\<rparr>,
                     \<lparr>x1 = 1, y1 = 1, x2 = 2, y2 = 2, conf = prob_of (1/2), cls = 17\<rparr>],
                    [\<lparr>x1 = 4, y1 = 4, x2 = 6, y2 = 6, conf = prob_of (9/10), cls = 3\<rparr>]]"
      "\<lparr>pixels = [[0, 1], [2, 3]], drawn = []\<rparr>" 640 _ "1/2" "[''17'' \<mapsto> ''face'']"]
  by (simp add: class_key_def box_and_label_def box_fits_def c_int_def py_int_def str_int_def
      str_nat_digit str_nat_17 digit_char_def str_round2_def str_hundredths_def
      prob_val_prob_of fl32_half round2_075)

text \<open>
  The claim as it was stated, with the threshold itself, fails: NumPy compares in
  single precision, so the confidence \<open>float32(0.1)\<close>, which is greater than the
  double \<open>0.1\<close>, does not pass the threshold \<open>0.1\<close>, and the detection is dropped.
\<close>

theorem detect_objects_threshold_counterexample:
  "(3602879701896397 / 36028797018963968 :: real) <
     prob_val (conf \<lparr>x1 = 10, y1 = 10, x2 = 50, y2 = 50,
                     conf = prob_of (13421773 / 134217728), cls = 0\<rparr>) \<and>
   class_key \<lparr>x1 = 10, y1 = 10, x2 = 50, y2 = 50,
              conf = prob_of (13421773 / 134217728), cls = 0\<rparr> \<in> dom [''0'' \<mapsto> ''person''] \<and>
   detect_objects (Some \<lparr>pixels = [], drawn = []\<rparr>)
     (\<lambda>fr sz. Inr [[\<lparr>x1 = 10, y1 = 10, x2 = 50, y2 = 50,
                      conf = prob_of (13421773 / 134217728), cls = 0\<rparr>]])
     (3602879701896397 / 36028797018963968) 640 (Some [''0'' \<mapsto> ''person''])
   = ([Print TypeOfImgsz, Predict (Some \<lparr>pixels = [], drawn = []\<rparr>) 640],
      Inr (Some \<lparr>pixels = [], drawn = []\<rparr>))"
  by (simp add: detect_objects_def annotate_obj_def class_key_def py_int_def str_int_def
      str_nat_digit digit_char_def prob_val_prob_of fl32_double_tenth)

lemma nth_pairs:
  "i < length xs \<Longrightarrow>
     concat (map (\<lambda>x. [a x, b x]) xs) ! (2 * i) = a (xs ! i) \<and>
     concat (map (\<lambda>x. [a x, b x]) xs) ! (2 * i + 1) = b (xs ! i)"
proof (induction xs arbitrary: i)
  case Nil
  then show ?case by simp
next
  case (Cons x xs)
  show ?case
  proof (cases i)
    case 0
    then show ?thesis by simp
  next
    case (Suc j)
    with Cons.prems have "j < length xs" by simp
    from Cons.IH [OF this] Suc show ?thesis by simp
  qed
qed

lemma length_pairs: "length (concat (map (\<lambda>x. [a x, b x]) xs)) = 2 * length xs"
  by (induction xs) simp_all

text \<open>
  Claim C2, as the code has it. The surviving detections are drawn in the order the
  model returned them: the \<open>i\<close>-th survivor contributes the \<open>i\<close>-th pair of primitives, a
  rectangle between its two corners truncated to integers, then a text placed at the
  truncated top-left corner. The text is the translated label, a space and the decimal
  of \<open>k\<close> hundredths, where \<open>k\<close> is the confidence times 100, rounded to single precision
  and then to the nearest integer, ties to even. \<open>k\<close> lies from 0 to 100 and differs
  from 100 times the confidence by at most a half and \<open>2^-18\<close>. What was on the frame
  before stays in front of the new primitives. Truncation moves a coordinate towards
  zero, by less than one.
\<close>

theorem detect_objects_draws_in_order:
  assumes "m (Some f) imgsz = Inr results"
    and "\<forall>obj \<in> set (concat results). box_fits obj"
  shows "let survivors = filter (\<lambda>obj. fl32 thr < prob_val (conf obj) \<and> class_key obj \<in> dom tr)
                                (concat results)
         in (\<exists>ops. snd (detect_objects (Some f) m thr imgsz (Some tr)) =
                    Inr (Some (f\<lparr>drawn := drawn f @ ops\<rparr>)) \<and>
              length ops = 2 * length survivors \<and>
              (\<forall>i < length survivors.
                 ops ! (2 * i) =
                   Rectangle (py_int (x1 (survivors ! i)), py_int (y1 (survivors ! i)))
                             (py_int (x2 (survivors ! i)), py_int (y2 (survivors ! i))) \<and>
                 (\<exists>k. ops ! (2 * i + 1) =
                        PutText (the (tr (class_key (survivors ! i))) @ '' '' @
                                   str_hundredths (nat k))
                                (py_int (x1 (survivors ! i)), py_int (y1 (survivors ! i))) \<and>
                      k = round_half_even (fl32 (prob_val (conf (survivors ! i)) * 100)) \<and>
                      0 \<le> k \<and> k \<le> 100 \<and>
                      \<bar>of_int k - fl32 (prob_val (conf (survivors ! i)) * 100)\<bar> \<le> 1 / 2 \<and>
                      \<bar>of_int k - prob_val (conf (survivors ! i)) * 100\<bar> \<le> 1 / 2 + 1 / 2 ^ 18))) \<and>
            (\<forall>x. \<bar>of_int (py_int x)\<bar> \<le> \<bar>x\<bar> \<and> \<bar>x - of_int (py_int x)\<bar> < 1)"
proof -
  let ?S = "filter (\<lambda>obj. fl32 thr < prob_val (conf obj) \<and> class_key obj \<in> dom tr) (concat results)"
  let ?a = "\<lambda>s. Rectangle (py_int (x1 s), py_int (y1 s)) (py_int (x2 s), py_int (y2 s))"
  let ?b = "\<lambda>s. PutText (the (tr (class_key s)) @ '' '' @ str_round2 (conf s))
                         (py_int (x1 s), py_int (y1 s))"
  let ?ops = "concat (map (\<lambda>s. [?a s, ?b s]) ?S)"
  have run: "snd (detect_objects (Some f) m thr imgsz (Some tr)) =
      Inr (Some (f\<lparr>drawn := drawn f @ ?ops\<rparr>))"
    using assms
    by (simp add: detect_objects_def annotate_results_Some survives_eq box_and_label_def)
  have len: "length ?ops = 2 * length ?S"
    by (rule length_pairs)
  have nth: "?ops ! (2 * i) = ?a (?S ! i) \<and> ?ops ! (2 * i + 1) = ?b (?S ! i)"
    if "i < length ?S" for i
    using nth_pairs [where a = ?a and b = ?b and xs = ?S, OF that] .
  have label: "\<exists>k. ?b s =
        PutText (the (tr (class_key s)) @ '' '' @ str_hundredths (nat k))
                (py_int (x1 s), py_int (y1 s)) \<and>
      k = round_half_even (fl32 (prob_val (conf s) * 100)) \<and>
      0 \<le> k \<and> k \<le> 100 \<and>
      \<bar>of_int k - fl32 (prob_val (conf s) * 100)\<bar> \<le> 1 / 2 \<and>
      \<bar>of_int k - prob_val (conf s) * 100\<bar> \<le> 1 / 2 + 1 / 2 ^ 18" for s
    using round2_prob [of "prob_val (conf s)"] prob_val_range [of "conf s"]
    by (simp add: str_round2_def round2_def)
  have each: "\<forall>i < length ?S.
      ?ops ! (2 * i) = ?a (?S ! i) \<and>
      (\<exists>k. ?ops ! (2 * i + 1) =
             PutText (the (tr (class_key (?S ! i))) @ '' '' @ str_hundredths (nat k))
                     (py_int (x1 (?S ! i)), py_int (y1 (?S ! i))) \<and>
           k = round_half_even (fl32 (prob_val (conf (?S ! i)) * 100)) \<and>
           0 \<le> k \<and> k \<le> 100 \<and>
           \<bar>of_int k - fl32 (prob_val (conf (?S ! i)) * 100)\<bar> \<le> 1 / 2 \<and>
           \<bar>of_int k - prob_val (conf (?S ! i)) * 100\<bar> \<le> 1 / 2 + 1 / 2 ^ 18)"
  proof (intro allI impI)
    fix i
    assume "i < length ?S"
    from nth [OF this] have "?ops ! (2 * i) = ?a (?S ! i)" and "?ops ! (2 * i + 1) = ?b (?S ! i)"
      by blast+
    with label [of "?S ! i"] show "?ops ! (2 * i) = ?a (?S ! i) \<and>
      (\<exists>k. ?ops ! (2 * i + 1) =
             PutText (the (tr (class_key (?S ! i))) @ '' '' @ str_hundredths (nat k))
                     (py_int (x1 (?S ! i)), py_int (y1 (?S ! i))) \<and>
           k = round_half_even (fl32 (prob_val (conf (?S ! i)) * 100)) \<and>
           0 \<le> k \<and> k \<le> 100 \<and>
           \<bar>of_int k - fl32 (prob_val (conf (?S ! i)) * 100)\<bar> \<le> 1 / 2 \<and>
           \<bar>of_int k - prob_val (conf (?S ! i)) * 100\<bar> \<le> 1 / 2 + 1 / 2 ^ 18)"
      by presburger
  qed
  from run len each have "\<exists>ops. snd (detect_objects (Some f) m thr imgsz (Some tr)) =
                    Inr (Some (f\<lparr>drawn := drawn f @ ops\<rparr>)) \<and>
              length ops = 2 * length ?S \<and>
              (\<forall>i < length ?S.
                 ops ! (2 * i) = ?a (?S ! i) \<and>
                 (\<exists>k. ops ! (2 * i + 1) =
                        PutText (the (tr (class_key (?S ! i))) @ '' '' @ str_hundredths (nat k))
                                (py_int (x1 (?S ! i)), py_int (y1 (?S ! i))) \<and>
                      k = round_half_even (fl32 (prob_val (conf (?S ! i)) * 100)) \<and>
                      0 \<le> k \<and> k \<le> 100 \<and>
                      \<bar>of_int k - fl32 (prob_val (conf (?S ! i)) * 100)\<bar> \<le> 1 / 2 \<and>
                      \<bar>of_int k - prob_val (conf (?S ! i)) * 100\<bar> \<le> 1 / 2 + 1 / 2 ^ 18))"
    by blast
  with py_int_truncates show ?thesis
    unfolding Let_def by blast
qed

theorem detect_objects_draws_in_order_witness:
  "\<exists>ops. snd (detect_objects (Some \<lparr>pixels = [], drawn = []\<rparr>)
            (\<lambda>fr sz. Inr [[\<lparr>x1 = 10, y1 = 10, x2 = 50, y2 = 50, conf = prob_of (91/100), cls = 0\<rparr>,
                            \<lparr>x1 = 5, y1 = 5, x2 = 20, y2 = 20, conf = prob_of (40/100), cls = 7\<rparr>,
                            \<lparr>x1 = - 7/2, y1 = 407/10, x2 = 60, y2 = 80,
                             conf = prob_of (876/1000), cls = 0\<rparr>,
                            \<lparr>x1 = 1, y1 = 2, x2 = 3, y2 = 4, conf = prob_of (904/1000), cls = 0\<rparr>,
                            \<lparr>x1 = 5, y1 = 6, x2 = 7, y2 = 8, conf = prob_of 1, cls = 0\<rparr>]])
            (1/2) 640 (Some [''0'' \<mapsto> ''person''])) =
          Inr (Some \<lparr>pixels = [], drawn = ops\<rparr>) \<and>
        length ops = 8 \<and>
        ops ! 0 = Rectangle (10, 10) (50, 50) \<and>
        ops ! 1 = PutText ''person 0.91'' (10, 10) \<and>
        ops ! 2 = Rectangle (- 3, 40) (60, 80) \<and>
        ops ! 3 = PutText ''person 0.88'' (- 3, 40) \<and>
        ops ! 4 = Rectangle (1, 2) (3, 4) \<and>
        ops ! 5 = PutText ''person 0.9'' (1, 2) \<and>
        ops ! 6 = Rectangle (5, 6) (7, 8) \<and>
        ops ! 7 = PutText ''person 1.0'' (5, 6)"
proof -
  let ?d1 = "\<lparr>x1 = 10, y1 = 10, x2 = 50, y2 = 50, conf = prob_of (91/100), cls = 0\<rparr>"
  let ?d2 = "\<lparr>x1 = 5, y1 = 5, x2 = 20, y2 = 20, conf = prob_of (40/100), cls = 7\<rparr>"
  let ?d3 = "\<lparr>x1 = - 7/2, y1 = 407/10, x2 = 60, y2 = 80, conf = prob_of (876/1000), cls = 0\<rparr>"
  let ?d4 = "\<lparr>x1 = 1, y1 = 2, x2 = 3, y2 = 4, conf = prob_of (904/1000), cls = 0\<rparr>"
  let ?d5 = "\<lparr>x1 = 5, y1 = 6, x2 = 7, y2 = 8, conf = prob_of 1, cls = 0\<rparr>"
  let ?rows = "[[?d1, ?d2, ?d3, ?d4, ?d5]]"
  let ?S = "[?d1, ?d3, ?d4, ?d5]"
  let ?m = "\<lambda>(fr :: frame option) (sz :: int). (Inr ?rows :: error + detection list list)"
  let ?tr = "[''0'' \<mapsto> ''person'']"
  have S: "filter (\<lambda>obj. fl32 (1/2) < prob_val (conf obj) \<and> class_key obj \<in> dom ?tr)
             (concat ?rows) = ?S"
    by (simp add: class_key_def py_int_def str_int_def str_nat_digit digit_char_def
        prob_val_prob_of fl32_half)
  have key: "?tr (class_key ?d1) = Some ''person''" "?tr (class_key ?d3) = Some ''person''"
    "?tr (class_key ?d4) = Some ''person''" "?tr (class_key ?d5) = Some ''person''"
    by (simp_all add: class_key_def py_int_def str_int_def str_nat_digit digit_char_def)
  have k1: "round_half_even (fl32 (prob_val (conf ?d1) * 100)) = 91"
    using round2_091 by (simp add: prob_val_prob_of round2_def)
  have k3: "round_half_even (fl32 (prob_val (conf ?d3) * 100)) = 88"
    using round2_0876 by (simp add: prob_val_prob_of round2_def)
  have k4: "round_half_even (fl32 (prob_val (conf ?d4) * 100)) = 90"
    using round2_0904 by (simp add: prob_val_prob_of round2_def)
  have k5: "round_half_even (fl32 (prob_val (conf ?d5) * 100)) = 100"
    using round2_1 by (simp add: prob_val_prob_of round2_def)
  have s1: "str_hundredths 91 = ''0.91''" and s3: "str_hundredths 88 = ''0.88''"
    and s4: "str_hundredths 90 = ''0.9''" and s5: "str_hundredths 100 = ''1.0''"
    by (simp_all add: str_hundredths_def str_nat_digit digit_char_def)
  have fits: "\<forall>obj \<in> set (concat ?rows). box_fits obj"
    by (simp add: box_fits_def c_int_def py_int_def)
  have "?m (Some \<lparr>pixels = [], drawn = []\<rparr>) 640 = Inr ?rows"
    by simp
  from detect_objects_draws_in_order [OF this fits, of "1/2" ?tr]
  obtain ops where
    run: "snd (detect_objects (Some \<lparr>pixels = [], drawn = []\<rparr>) ?m (1/2) 640 (Some ?tr)) =
          Inr (Some (\<lparr>pixels = [], drawn = []\<rparr>\<lparr>drawn := drawn \<lparr>pixels = [], drawn = []\<rparr> @ ops\<rparr>))"
    and len: "length ops = 2 * length ?S"
    and nth: "\<forall>i < length ?S.
        ops ! (2 * i) = Rectangle (py_int (x1 (?S ! i)), py_int (y1 (?S ! i)))
                                  (py_int (x2 (?S ! i)), py_int (y2 (?S ! i))) \<and>
        (\<exists>k. ops ! (2 * i + 1) =
               PutText (the (?tr (class_key (?S ! i))) @ '' '' @ str_hundredths (nat k))
                       (py_int (x1 (?S ! i)), py_int (y1 (?S ! i))) \<and>
             k = round_half_even (fl32 (prob_val (conf (?S ! i)) * 100)) \<and>
             0 \<le> k \<and> k \<le> 100 \<and>
             \<bar>of_int k - fl32 (prob_val (conf (?S ! i)) * 100)\<bar> \<le> 1 / 2 \<and>
             \<bar>of_int k - prob_val (conf (?S ! i)) * 100\<bar> \<le> 1 / 2 + 1 / 2 ^ 18)"
    unfolding Let_def S by blast
  from nth [rule_format, of 0] k1 key(1) s1
  have n0: "ops ! 0 = Rectangle (10, 10) (50, 50)"
    and n1: "ops ! 1 = PutText ''person 0.91'' (10, 10)"
    by (auto simp: py_int_def)
  from nth [rule_format, of 1] k3 key(2) s3
  have n2: "ops ! 2 = Rectangle (- 3, 40) (60, 80)"
    and n3: "ops ! 3 = PutText ''person 0.88'' (- 3, 40)"
    by (auto simp: py_int_def)
  from nth [rule_format, of 2] k4 key(3) s4
  have n4: "ops ! 4 = Rectangle (1, 2) (3, 4)"
    and n5: "ops ! 5 = PutText ''person 0.9'' (1, 2)"
    by (auto simp: py_int_def)
  from nth [rule_format, of 3] k5 key(4) s5
  have n6: "ops ! 6 = Rectangle (5, 6) (7, 8)"
    and n7: "ops ! 7 = PutText ''person 1.0'' (5, 6)"
    by (auto simp: py_int_def)
  from run len n0 n1 n2 n3 n4 n5 n6 n7 show ?thesis by simp
qed

text \<open>
  The claim as it was stated, the confidence rounded to two decimal places, fails: for
  the confidence \<open>float32(0.545)\<close>, which lies above 0.545, the product with 100
  rounds to 54.5 in single precision and the tie goes to 54, so the text shows 0.54
  although 0.55 is nearer.
\<close>

theorem label_rounding_counterexample:
  "snd (detect_objects (Some \<lparr>pixels = [], drawn = []\<rparr>)
          (\<lambda>fr sz. Inr [[\<lparr>x1 = 10, y1 = 10, x2 = 50, y2 = 50,
                           conf = prob_of (9143583 / 16777216), cls = 0\<rparr>]])
          (1/2) 640 (Some [''0'' \<mapsto> ''person''])) =
     Inr (Some \<lparr>pixels = [],
                drawn = [Rectangle (10, 10) (50, 50), PutText ''person 0.54'' (10, 10)]\<rparr>) \<and>
   \<bar>55 / 100 - 9143583 / 16777216\<bar> < \<bar>54 / 100 - (9143583 / 16777216 :: real)\<bar>"
  by (simp add: detect_objects_def annotate_obj_def one_object_display_def box_fits_def
      c_int_def class_key_def py_int_def str_int_def str_nat_digit digit_char_def
      str_round2_def str_hundredths_def prob_val_prob_of fl32_half round2_0545f)

subsection \<open>Presenting a frame\<close>

text \<open>
  Claim C7. \<open>show_frame_on_monitor\<close> with a monitor index that is at least the number
  of enumerated monitors prints the monitor diagnostic and returns; with an absent frame
  it prints a diagnostic and returns as well (the monitor diagnostic when the index is
  out of range too, the empty-image diagnostic otherwise). In both cases it raises
  nothing and causes no event that creates or changes a window.
\<close>

theorem show_frame_on_monitor_no_op:
  "(int (length (monitors d)) \<le> n \<longrightarrow>
      show_frame_on_monitor d fr n = ([Print (MonitorNotFound n)], Inr ())) \<and>
   (fr = None \<longrightarrow>
      show_frame_on_monitor d fr n =
        (if int (length (monitors d)) \<le> n \<or> n < 0 then ([Print (MonitorNotFound n)], Inr ())
         else ([Print EmptyImage], Inr ()))) \<and>
   (int (length (monitors d)) \<le> n \<or> fr = None \<longrightarrow>
      (\<exists>g. show_frame_on_monitor d fr n = ([Print g], Inr ())) \<and>
      filter is_window_event (fst (show_frame_on_monitor d fr n)) = [])"
  by (auto simp: show_frame_on_monitor_def)

theorem show_frame_on_monitor_no_op_witness:
  "show_frame_on_monitor \<lparr>monitors = [\<lparr>mon_x = 0, mon_y = 0\<rparr>, \<lparr>mon_x = 1920, mon_y = 0\<rparr>]\<rparr>
     (Some \<lparr>pixels = [[1, 2]], drawn = []\<rparr>) 2 = ([Print (MonitorNotFound 2)], Inr ()) \<and>
   show_frame_on_monitor \<lparr>monitors = [\<lparr>mon_x = 0, mon_y = 0\<rparr>, \<lparr>mon_x = 1920, mon_y = 0\<rparr>]\<rparr>
     None 1 = ([Print EmptyImage], Inr ()) \<and>
   show_frame_on_monitor \<lparr>monitors = [\<lparr>mon_x = 0, mon_y = 0\<rparr>, \<lparr>mon_x = 1920, mon_y = 0\<rparr>]\<rparr>
     (Some \<lparr>pixels = [[1, 2]], drawn = []\<rparr>) 1 =
     ([NamedWindow ''Monitor 1'', SetWindowFullscreen ''Monitor 1'',
       Imshow ''Monitor 1'' \<lparr>pixels = [[1, 2]], drawn = []\<rparr>], Inr ())"
  using show_frame_on_monitor_no_op [of
      "\<lparr>monitors = [\<lparr>mon_x = 0, mon_y = 0\<rparr>, \<lparr>mon_x = 1920, mon_y = 0\<rparr>]\<rparr>" 2
      "Some \<lparr>pixels = [[1, 2]], drawn = []\<rparr>"]
    show_frame_on_monitor_no_op [of
      "\<lparr>monitors = [\<lparr>mon_x = 0, mon_y = 0\<rparr>, \<lparr>mon_x = 1920, mon_y = 0\<rparr>]\<rparr>" 1 None]
  by (simp add: show_frame_on_monitor_def py_index_def get_monitors_positions_def
      window_name_def str_int_def str_nat_digit digit_char_def)

subsection \<open>The loop\<close>

lemma ord_q: "(of_char CHR ''q'' :: int) = 113"
  by simp

lemma and_255_small:
  fixes k :: int
  assumes "0 \<le> k" "k \<le> 255"
  shows "k AND 255 = k"
proof -
  have "(255::int) = mask 8" by (simp add: mask_eq_exp_minus_1)
  then have "k AND 255 = take_bit 8 k" by (simp add: take_bit_eq_mask)
  also have "\<dots> = k mod 256" by (simp add: take_bit_eq_mod)
  also have "\<dots> = k" using assms by simp
  finally show ?thesis .
qed

lemma quit_key_range:
  assumes "- 1 \<le> k" "k \<le> 255"
  shows "quit_key k \<longleftrightarrow> k = 113"
proof (cases "k = - 1")
  case True
  then show ?thesis by (simp add: quit_key_def)
next
  case False
  with assms have "0 \<le> k" by simp
  from and_255_small [OF this assms(2)] show ?thesis by (simp add: quit_key_def)
qed

lemma iteration_state:
  "snd (loop_iteration m t c d imgsz ct inp) = Inr st \<Longrightarrow> (st = Stopped \<longleftrightarrow> quit_key (pressed_key inp))"
  by (auto simp: loop_iteration_def split: sum.splits prod.splits if_splits)

lemma iteration_stopped_events:
  "snd (loop_iteration m t c d imgsz ct inp) = Inr Stopped \<Longrightarrow>
     \<exists>evs. fst (loop_iteration m t c d imgsz ct inp) = evs @ [WaitKey, DestroyAllWindows]"
  by (auto simp: loop_iteration_def split: sum.splits prod.splits if_splits)

lemma run_loop_Stopped_has_q:
  "snd (run_loop m t c d imgsz ct inps) = Inr Stopped \<Longrightarrow>
     \<exists>inp \<in> set inps. quit_key (pressed_key inp)"
proof (induction inps)
  case Nil
  then show ?case by simp
next
  case (Cons inp inps)
  obtain evs r where it: "loop_iteration m t c d imgsz ct inp = (evs, r)"
    by (cases "loop_iteration m t c d imgsz ct inp")
  show ?case
  proof (cases "r = Inr Running")
    case True
    with it Cons.prems have "snd (run_loop m t c d imgsz ct inps) = Inr Stopped"
      by (simp split: prod.splits)
    from Cons.IH [OF this] show ?thesis by auto
  next
    case False
    with it Cons.prems have "r = Inr Stopped"
      by (auto split: sum.splits loop_state.splits)
    with it have "snd (loop_iteration m t c d imgsz ct inp) = Inr Stopped" by simp
    from iteration_state [OF this] show ?thesis by simp
  qed
qed

lemma run_loop_prefix:
  "\<forall>p \<in> set pre. snd (loop_iteration m t c d imgsz ct p) = Inr Running \<Longrightarrow>
   run_loop m t c d imgsz ct (pre @ rest) =
     (concat (map (\<lambda>p. fst (loop_iteration m t c d imgsz ct p)) pre) @
        fst (run_loop m t c d imgsz ct rest),
      snd (run_loop m t c d imgsz ct rest))"
proof (induction pre)
  case Nil
  show ?case by simp
next
  case (Cons p pre)
  then have "snd (loop_iteration m t c d imgsz ct p) = Inr Running" by simp
  then obtain evs where "loop_iteration m t c d imgsz ct p = (evs, Inr Running)"
    by (cases "loop_iteration m t c d imgsz ct p") simp
  with Cons show ?case by simp
qed

lemma run_loop_stops_at_q:
  assumes "snd (loop_iteration m t c d imgsz ct inp) = Inr Stopped"
  shows "run_loop m t c d imgsz ct (inp # rest) = loop_iteration m t c d imgsz ct inp"
  using assms by (cases "loop_iteration m t c d imgsz ct inp") simp

lemma annotate_obj_None:
  "annotate_obj c t None obj = Inr fr' \<Longrightarrow> fr' = None"
  by (auto simp: annotate_obj_def one_object_display_def split: if_splits option.splits)

lemma annotate_boxes_None:
  "annotate_boxes c t None objs = Inr fr' \<Longrightarrow> fr' = None"
proof (induction objs)
  case Nil
  then show ?case by simp
next
  case (Cons obj objs)
  then show ?case
    by (auto split: sum.splits dest: annotate_obj_None)
qed

lemma annotate_results_None:
  "annotate_results c t None items = Inr fr' \<Longrightarrow> fr' = None"
proof (induction items)
  case Nil
  then show ?case by simp
next
  case (Cons item items)
  then show ?case
    by (auto split: sum.splits dest: annotate_boxes_None)
qed

lemma detect_objects_None:
  "snd (detect_objects None m c imgsz t) = Inr fr' \<Longrightarrow> fr' = None"
  by (auto simp: detect_objects_def split: sum.splits dest: annotate_results_None)

lemma show_frame_returns:
  "snd (show_frame_on_monitor d fr n) = Inr ()"
  by (auto simp: show_frame_on_monitor_def py_index_def get_monitors_positions_def
      split: option.splits sum.splits)

lemma show_frame_None_nonempty:
  "fst (show_frame_on_monitor d None n) = [Print (MonitorNotFound n)] \<or>
   fst (show_frame_on_monitor d None n) = [Print EmptyImage]"
  by (simp add: show_frame_on_monitor_def)

lemma annotate_boxes_None_returns:
  assumes "\<forall>obj \<in> set objs. box_fits obj"
  shows "annotate_boxes c (Some tr) None objs = Inr None"
  using assms
  by (induction objs)
     (auto simp: annotate_obj_def one_object_display_def split: option.splits)

lemma annotate_results_None_returns:
  assumes "\<forall>obj \<in> set (concat items). box_fits obj"
  shows "annotate_results c (Some tr) None items = Inr None"
  using assms
  by (induction items) (simp_all add: annotate_boxes_None_returns)

lemma detect_objects_None_returns:
  assumes "m None imgsz = Inr results" and "\<forall>obj \<in> set (concat results). box_fits obj"
  shows "snd (detect_objects None m c imgsz (Some tr)) = Inr None"
  using assms by (simp add: detect_objects_def annotate_results_None_returns)

text \<open>
  Claim C3. In an iteration whose frame read reports failure (flag false, no frame) the
  loop does not skip: no test of the flag stands between the read and the calls. The
  model is called on the absent frame first. Whenever the model returns its rows, with
  a label table and box corners that fit, detection returns, also when rows pass the
  filter, since drawing on an absent frame does nothing; the frame is still absent and
  \<open>show_frame_on_monitor\<close> is called on it next, which prints a diagnostic. Only when
  detection raises does the error leave the iteration before the presentation.
\<close>

theorem failed_read_not_skipped:
  assumes "get_frame_result inp = Inr (False, None)"
  shows "(\<exists>evs. fst (loop_iteration m t c d imgsz ''usb'' inp) =
             Print TypeOfImgsz # Predict None imgsz # evs) \<and>
         (\<forall>results tr. m None imgsz = Inr results \<and> t = Some tr \<and>
              (\<forall>obj \<in> set (concat results). box_fits obj) \<longrightarrow>
            snd (detect_objects None m c imgsz t) = Inr None \<and>
            (\<exists>evs. fst (loop_iteration m t c d imgsz ''usb'' inp) =
               [Print TypeOfImgsz, Predict None imgsz] @
               fst (show_frame_on_monitor d None default_monitor_number) @ evs)) \<and>
         fst (show_frame_on_monitor d None default_monitor_number) \<noteq> [] \<and>
         (\<forall>fr'. snd (detect_objects None m c imgsz t) = Inr fr' \<longrightarrow>
            fr' = None \<and>
            (\<exists>evs. fst (loop_iteration m t c d imgsz ''usb'' inp) =
               [Print TypeOfImgsz, Predict None imgsz] @
               fst (show_frame_on_monitor d None default_monitor_number) @ evs)) \<and>
         (\<forall>e. snd (detect_objects None m c imgsz t) = Inl e \<longrightarrow>
            loop_iteration m t c d imgsz ''usb'' inp =
              ([Print TypeOfImgsz, Predict None imgsz], Inl e))"
proof -
  have acq: "acquire ''usb'' inp = Inr None"
    using assms by (simp add: acquire_def)
  have ev: "fst (detect_objects None m c imgsz t) = [Print TypeOfImgsz, Predict None imgsz]"
    by (simp add: detect_objects_def)
  have first: "\<exists>evs. fst (loop_iteration m t c d imgsz ''usb'' inp) =
             Print TypeOfImgsz # Predict None imgsz # evs"
    using acq ev
    by (cases "detect_objects None m c imgsz t")
       (auto simp: loop_iteration_def split: sum.splits prod.splits)
  have shown: "fst (show_frame_on_monitor d None default_monitor_number) \<noteq> []"
    using show_frame_None_nonempty [of d default_monitor_number] by auto
  have second: "fr' = None \<and>
            (\<exists>evs. fst (loop_iteration m t c d imgsz ''usb'' inp) =
               [Print TypeOfImgsz, Predict None imgsz] @
               fst (show_frame_on_monitor d None default_monitor_number) @ evs)"
    if ok: "snd (detect_objects None m c imgsz t) = Inr fr'" for fr'
  proof -
    from detect_objects_None [OF ok] have n: "fr' = None" .
    with ok ev have det: "detect_objects None m c imgsz t =
        ([Print TypeOfImgsz, Predict None imgsz], Inr None)"
      by (cases "detect_objects None m c imgsz t") simp
    obtain evs2 where sh: "show_frame_on_monitor d None default_monitor_number = (evs2, Inr ())"
      using show_frame_returns [of d None default_monitor_number]
      by (cases "show_frame_on_monitor d None default_monitor_number") simp
    have "\<exists>evs. fst (loop_iteration m t c d imgsz ''usb'' inp) =
               [Print TypeOfImgsz, Predict None imgsz] @ evs2 @ evs"
      using acq det sh by (simp add: loop_iteration_def)
    then show ?thesis using n sh by simp
  qed
  have realistic: "snd (detect_objects None m c imgsz t) = Inr None \<and>
            (\<exists>evs. fst (loop_iteration m t c d imgsz ''usb'' inp) =
               [Print TypeOfImgsz, Predict None imgsz] @
               fst (show_frame_on_monitor d None default_monitor_number) @ evs)"
    if h: "m None imgsz = Inr results \<and> t = Some tr \<and>
           (\<forall>obj \<in> set (concat results). box_fits obj)" for results tr
  proof -
    from h have "snd (detect_objects None m c imgsz t) = Inr None"
      using detect_objects_None_returns [of m imgsz results c tr] by simp
    with second [of None] show ?thesis by simp
  qed
  have third: "loop_iteration m t c d imgsz ''usb'' inp =
              ([Print TypeOfImgsz, Predict None imgsz], Inl e)"
    if bad: "snd (detect_objects None m c imgsz t) = Inl e" for e
  proof -
    from bad ev have "detect_objects None m c imgsz t =
        ([Print TypeOfImgsz, Predict None imgsz], Inl e)"
      by (cases "detect_objects None m c imgsz t") simp
    with acq show ?thesis by (simp add: loop_iteration_def)
  qed
  from first realistic shown second third show ?thesis by blast
qed

theorem failed_read_not_skipped_witness:
  "get_frame_result \<lparr>get_frame_result = Inr (False, None), elapsed_time = 1/25,
                     pressed_key = - 1\<rparr> = Inr (False, None) \<and>
   loop_iteration
     (\<lambda>fr sz. Inr [[\<lparr>x1 = 10, y1 = 10, x2 = 50, y2 = 50, conf = prob_of (91/100), cls = 0\<rparr>]])
     (Some [''0'' \<mapsto> ''person'']) (1/2)
     \<lparr>monitors = [\<lparr>mon_x = 0, mon_y = 0\<rparr>, \<lparr>mon_x = 1920, mon_y = 0\<rparr>]\<rparr> 640 ''usb''
     \<lparr>get_frame_result = Inr (False, None), elapsed_time = 1/25, pressed_key = - 1\<rparr> =
   ([Print TypeOfImgsz, Predict None 640, Print EmptyImage, Print (FPS 25), WaitKey],
    Inr Running)"
  using failed_read_not_skipped [of
      "\<lparr>get_frame_result = Inr (False, None), elapsed_time = 1/25, pressed_key = - 1\<rparr>"
      "\<lambda>fr sz. Inr [[\<lparr>x1 = 10, y1 = 10, x2 = 50, y2 = 50, conf = prob_of (91/100), cls = 0\<rparr>]]"
      "Some [''0'' \<mapsto> ''person'']" "1/2"
      "\<lparr>monitors = [\<lparr>mon_x = 0, mon_y = 0\<rparr>, \<lparr>mon_x = 1920, mon_y = 0\<rparr>]\<rparr>" 640]
  by (simp add: loop_iteration_def acquire_def detect_objects_def annotate_obj_def
      one_object_display_def box_fits_def c_int_def py_int_def str_int_def str_nat_digit
      digit_char_def prob_val_prob_of fl32_half show_frame_on_monitor_def
      default_monitor_number_def quit_key_def)

text \<open>
  Claim C9. The key poll is the only way from \<open>Running\<close> to \<open>Stopped\<close>. An iteration
  that completes ends \<open>Stopped\<close> exactly when the low byte of the polled key code is the
  code of \<open>q\<close>, and then its last events are the poll and the destruction of all
  windows, and the loop consumes no further input; with any other key the loop goes on
  with the next iteration. A run that ends \<open>Stopped\<close> has polled such a key. For the
  values a poll returns, \<open>-1\<close> for no key and otherwise a code from 0 to 255, the test
  holds for the code of \<open>q\<close> alone.
\<close>

theorem quit_only_on_q:
  "(snd (loop_iteration m t c d imgsz ct inp) = Inr st \<longrightarrow>
      (st = Stopped \<longleftrightarrow> quit_key (pressed_key inp))) \<and>
   (snd (loop_iteration m t c d imgsz ct inp) = Inr Stopped \<longrightarrow>
      (\<exists>evs. fst (loop_iteration m t c d imgsz ct inp) = evs @ [WaitKey, DestroyAllWindows]) \<and>
      run_loop m t c d imgsz ct (inp # rest) = loop_iteration m t c d imgsz ct inp) \<and>
   (snd (loop_iteration m t c d imgsz ct inp) = Inr Running \<longrightarrow>
      snd (run_loop m t c d imgsz ct (inp # rest)) = snd (run_loop m t c d imgsz ct rest)) \<and>
   (snd (run_loop m t c d imgsz ct inps) = Inr Stopped \<longrightarrow>
      (\<exists>p \<in> set inps. quit_key (pressed_key p))) \<and>
   (- 1 \<le> k \<and> k \<le> 255 \<longrightarrow> (quit_key k \<longleftrightarrow> k = of_char CHR ''q''))"
proof (intro conjI impI)
  assume "snd (loop_iteration m t c d imgsz ct inp) = Inr st"
  then show "st = Stopped \<longleftrightarrow> quit_key (pressed_key inp)"
    by (rule iteration_state)
next
  assume "snd (loop_iteration m t c d imgsz ct inp) = Inr Stopped"
  then show "\<exists>evs. fst (loop_iteration m t c d imgsz ct inp) = evs @ [WaitKey, DestroyAllWindows]"
    by (rule iteration_stopped_events)
next
  assume "snd (loop_iteration m t c d imgsz ct inp) = Inr Stopped"
  then show "run_loop m t c d imgsz ct (inp # rest) = loop_iteration m t c d imgsz ct inp"
    by (rule run_loop_stops_at_q)
next
  assume "snd (loop_iteration m t c d imgsz ct inp) = Inr Running"
  then show "snd (run_loop m t c d imgsz ct (inp # rest)) = snd (run_loop m t c d imgsz ct rest)"
    by (cases "loop_iteration m t c d imgsz ct inp") (simp split: prod.splits)
next
  assume "snd (run_loop m t c d imgsz ct inps) = Inr Stopped"
  then show "\<exists>p \<in> set inps. quit_key (pressed_key p)"
    by (rule run_loop_Stopped_has_q)
next
  assume "- 1 \<le> k \<and> k \<le> 255"
  then show "quit_key k \<longleftrightarrow> k = of_char CHR ''q''"
    using quit_key_range [of k] by simp
qed

theorem quit_only_on_q_witness:
  "snd (loop_iteration (\<lambda>fr sz. Inr []) (Some Map.empty) (1/2)
          \<lparr>monitors = [\<lparr>mon_x = 0, mon_y = 0\<rparr>, \<lparr>mon_x = 1920, mon_y = 0\<rparr>]\<rparr> 640 ''usb''
          \<lparr>get_frame_result = Inr (True, Some \<lparr>pixels = [[7]], drawn = []\<rparr>),
           elapsed_time = 1/20, pressed_key = 113\<rparr>) = Inr Stopped \<and>
   quit_key 113 \<and>
   snd (loop_iteration (\<lambda>fr sz. Inr []) (Some Map.empty) (1/2)
          \<lparr>monitors = [\<lparr>mon_x = 0, mon_y = 0\<rparr>, \<lparr>mon_x = 1920, mon_y = 0\<rparr>]\<rparr> 640 ''usb''
          \<lparr>get_frame_result = Inr (True, Some \<lparr>pixels = [[7]], drawn = []\<rparr>),
           elapsed_time = 1/20, pressed_key = 97\<rparr>) = Inr Running \<and>
   \<not> quit_key 97 \<and> \<not> quit_key (- 1)"
  using quit_only_on_q [of "\<lambda>fr sz. Inr []" "Some Map.empty" "1/2"
      "\<lparr>monitors = [\<lparr>mon_x = 0, mon_y = 0\<rparr>, \<lparr>mon_x = 1920, mon_y = 0\<rparr>]\<rparr>" 640 "''usb''"
      "\<lparr>get_frame_result = Inr (True, Some \<lparr>pixels = [[7]], drawn = []\<rparr>),
        elapsed_time = 1/20, pressed_key = 113\<rparr>" Stopped "[]" "[]" 113]
    quit_only_on_q [of "\<lambda>fr sz. Inr []" "Some Map.empty" "1/2"
      "\<lparr>monitors = [\<lparr>mon_x = 0, mon_y = 0\<rparr>, \<lparr>mon_x = 1920, mon_y = 0\<rparr>]\<rparr>" 640 "''usb''"
      "\<lparr>get_frame_result = Inr (True, Some \<lparr>pixels = [[7]], drawn = []\<rparr>),
        elapsed_time = 1/20, pressed_key = 97\<rparr>" Running "[]" "[]" 97]
    quit_only_on_q [of "\<lambda>fr sz. Inr []" "Some Map.empty" "1/2"
      "\<lparr>monitors = [\<lparr>mon_x = 0, mon_y = 0\<rparr>, \<lparr>mon_x = 1920, mon_y = 0\<rparr>]\<rparr>" 640 "''usb''"
      "\<lparr>get_frame_result = Inr (True, Some \<lparr>pixels = [[7]], drawn = []\<rparr>),
        elapsed_time = 1/20, pressed_key = 97\<rparr>" Running "[]" "[]" "- 1"]
  by (simp add: loop_iteration_def acquire_def detect_objects_def show_frame_on_monitor_def
      default_monitor_number_def py_index_def get_monitors_positions_def quit_key_def)

lemma show_frame_no_window_single:
  "length (monitors d) = 1 \<Longrightarrow>
     show_frame_on_monitor d fr default_monitor_number = ([Print (MonitorNotFound 1)], Inr ())"
  by (simp add: show_frame_on_monitor_def default_monitor_number_def)

lemma detect_objects_events:
  "fst (detect_objects fr m c imgsz t) = [Print TypeOfImgsz, Predict fr imgsz]"
  by (simp add: detect_objects_def)

lemma iteration_single_monitor:
  assumes "length (monitors d) = 1"
  shows "\<forall>ev \<in> set (fst (loop_iteration m t c d imgsz ct inp)). \<not> is_window_event ev"
proof (cases "acquire ct inp")
  case (Inl e)
  then show ?thesis by (simp add: loop_iteration_def)
next
  case (Inr fr)
  show ?thesis
  proof (cases "snd (detect_objects fr m c imgsz t)")
    case (Inl e)
    with detect_objects_events [of fr m c imgsz t]
    have "detect_objects fr m c imgsz t = ([Print TypeOfImgsz, Predict fr imgsz], Inl e)"
      by (cases "detect_objects fr m c imgsz t") simp
    with Inr show ?thesis by (simp add: loop_iteration_def)
  next
    case (Inr fr')
    with detect_objects_events [of fr m c imgsz t]
    have "detect_objects fr m c imgsz t = ([Print TypeOfImgsz, Predict fr imgsz], Inr fr')"
      by (cases "detect_objects fr m c imgsz t") simp
    with \<open>acquire ct inp = Inr fr\<close> show_frame_no_window_single [OF assms, of fr']
    show ?thesis by (simp add: loop_iteration_def)
  qed
qed

lemma run_loop_single_monitor:
  assumes "length (monitors d) = 1"
  shows "\<forall>ev \<in> set (fst (run_loop m t c d imgsz ct inps)). \<not> is_window_event ev"
proof (induction inps)
  case Nil
  show ?case by simp
next
  case (Cons inp inps)
  from iteration_single_monitor [OF assms, of m t c imgsz ct inp] Cons.IH
  show ?case
    by (cases "loop_iteration m t c d imgsz ct inp")
       (auto split: sum.splits loop_state.splits prod.splits)
qed

text \<open>
  Claim C10. The loop presents on the default monitor index 1. With exactly one
  monitor enumerated, every presentation is the out-of-range case: it prints the
  monitor diagnostic for index 1 and does nothing else, in every iteration that reaches
  it, and no run of \<open>run_model\<close> ever causes an event that creates a window or shows a
  frame.
\<close>

theorem single_monitor_never_displays:
  assumes "length (monitors d) = 1"
  shows "show_frame_on_monitor d fr default_monitor_number = ([Print (MonitorNotFound 1)], Inr ()) \<and>
         (\<forall>fr0 fr'. acquire ct inp = Inr fr0 \<and> snd (detect_objects fr0 m c imgsz t) = Inr fr' \<longrightarrow>
            (\<exists>evs. fst (loop_iteration m t c d imgsz ct inp) =
               [Print TypeOfImgsz, Predict fr0 imgsz, Print (MonitorNotFound 1)] @ evs)) \<and>
         (\<forall>ev \<in> set (fst (run_model yolo t w c d imgsz ct inps)). \<not> is_window_event ev)"
proof (intro conjI allI impI)
  show "show_frame_on_monitor d fr default_monitor_number = ([Print (MonitorNotFound 1)], Inr ())"
    by (rule show_frame_no_window_single [OF assms])
next
  fix fr0 fr'
  assume a: "acquire ct inp = Inr fr0 \<and> snd (detect_objects fr0 m c imgsz t) = Inr fr'"
  with detect_objects_events [of fr0 m c imgsz t]
  have "detect_objects fr0 m c imgsz t = ([Print TypeOfImgsz, Predict fr0 imgsz], Inr fr')"
    by (cases "detect_objects fr0 m c imgsz t") simp
  with a show_frame_no_window_single [OF assms, of fr']
  show "\<exists>evs. fst (loop_iteration m t c d imgsz ct inp) =
               [Print TypeOfImgsz, Predict fr0 imgsz, Print (MonitorNotFound 1)] @ evs"
    by (simp add: loop_iteration_def)
next
  show "\<forall>ev \<in> set (fst (run_model yolo t w c d imgsz ct inps)). \<not> is_window_event ev"
  proof (cases "yolo w")
    case (Inl e)
    then show ?thesis by (simp add: run_model_def)
  next
    case (Inr m)
    with run_loop_single_monitor [OF assms, of m t c imgsz ct inps] show ?thesis
      by (cases "run_loop m t c d imgsz ct inps") (simp add: run_model_def)
  qed
qed

theorem single_monitor_never_displays_witness:
  "length (monitors \<lparr>monitors = [\<lparr>mon_x = 0, mon_y = 0\<rparr>]\<rparr>) = 1 \<and>
   run_model (\<lambda>w. Inr (\<lambda>fr sz. Inr [])) (Some [''0'' \<mapsto> ''person'']) ''yolov8n-face.pt'' (1/2)
     \<lparr>monitors = [\<lparr>mon_x = 0, mon_y = 0\<rparr>]\<rparr> 640 ''usb''
     [\<lparr>get_frame_result = Inr (True, Some \<lparr>pixels = [[5]], drawn = []\<rparr>), elapsed_time = 1/10,
       pressed_key = - 1\<rparr>,
      \<lparr>get_frame_result = Inr (True, Some \<lparr>pixels = [[6]], drawn = []\<rparr>), elapsed_time = 1/10,
       pressed_key = 113\<rparr>] =
   ([Print UsingDevice,
     Print TypeOfImgsz, Predict (Some \<lparr>pixels = [[5]], drawn = []\<rparr>) 640,
     Print (MonitorNotFound 1), Print (FPS 10), WaitKey,
     Print TypeOfImgsz, Predict (Some \<lparr>pixels = [[6]], drawn = []\<rparr>) 640,
     Print (MonitorNotFound 1), Print (FPS 10), WaitKey, DestroyAllWindows],
    Inr Stopped)"
  using single_monitor_never_displays [of "\<lparr>monitors = [\<lparr>mon_x = 0, mon_y = 0\<rparr>]\<rparr>"]
  by (simp add: run_model_def loop_iteration_def acquire_def detect_objects_def
      show_frame_on_monitor_def default_monitor_number_def quit_key_def)

subsection \<open>Frame sources\<close>

text \<open>
  Claim C8. The constructor of the industrial-camera source raises the device-count
  error, before any call that creates or opens a device, when the index is 1 with one
  device enumerated, when the index is outside the enumerated devices, and when the
  number of devices is neither 1 nor 2. A device is only ever opened for an index
  inside the enumerated devices, with one or two of them present.
\<close>

theorem basler_init_rejects_bad_index:
  "(n_devices = 1 \<and> camera_index = 1 \<longrightarrow>
      basler_init n_devices camera_index load_ok = ([], Inl ValueError_DeviceCount)) \<and>
   (camera_index < 0 \<or> int n_devices \<le> camera_index \<longrightarrow>
      basler_init n_devices camera_index load_ok = ([], Inl ValueError_DeviceCount)) \<and>
   (n_devices \<noteq> 1 \<and> n_devices \<noteq> 2 \<longrightarrow>
      basler_init n_devices camera_index load_ok = ([], Inl ValueError_DeviceCount)) \<and>
   (\<forall>ev \<in> set (fst (basler_init n_devices camera_index load_ok)).
      is_open_event ev \<longrightarrow> 0 \<le> camera_index \<and> camera_index < int n_devices \<and>
                            (n_devices = 1 \<or> n_devices = 2))"
  by (auto simp: basler_init_def open_and_configure_def)

theorem basler_init_rejects_bad_index_witness:
  "basler_init 1 1 True = ([], Inl ValueError_DeviceCount) \<and>
   basler_init 2 2 True = ([], Inl ValueError_DeviceCount) \<and>
   basler_init 2 (- 1) True = ([], Inl ValueError_DeviceCount) \<and>
   basler_init 3 0 True = ([], Inl ValueError_DeviceCount) \<and>
   basler_init 0 0 True = ([], Inl ValueError_DeviceCount) \<and>
   basler_init 2 1 True =
     ([CreateDevice 1, CameraOpen 1, LoadFeatures 1, Print (BaslerConfigLoaded 1), StartGrabbing 1],
      Inr \<lparr>camera = \<lparr>device = 1, is_open = True, is_grabbing = True\<rparr>\<rparr>)"
  using basler_init_rejects_bad_index [of 1 1 True]
    basler_init_rejects_bad_index [of 2 2 True]
    basler_init_rejects_bad_index [of 2 "- 1" True]
    basler_init_rejects_bad_index [of 3 0 True]
    basler_init_rejects_bad_index [of 0 0 True]
  by (simp add: basler_init_def open_and_configure_def)

text \<open>
  For an object whose constructor assigned its handle, \<open>release\<close> returns, a second
  call changes nothing and causes no event, the device is closed afterwards, no call
  opens a device, and any positive number of calls has the effect of one.
\<close>

lemma release_constructed:
  assumes "c \<noteq> BaslerUnassigned"
  shows "\<exists>evs c'. release c = (evs, Inr c') \<and> c' \<noteq> BaslerUnassigned \<and>
           release c' = ([], Inr c') \<and> \<not> device_open c' \<and>
           (\<forall>ev \<in> set evs. \<not> is_open_event ev)"
  using assms
  by (cases c) (auto simp: basler_release_def webcam_release_def Let_def split: prod.splits)

lemma release_times_constructed:
  assumes "c \<noteq> BaslerUnassigned"
  shows "release_times (Suc n) c = release c"
proof -
  from release_constructed [OF assms] obtain evs c' where
    r: "release c = (evs, Inr c')" and again: "release c' = ([], Inr c')"
    by blast
  have "release_times k c' = ([], Inr c')" for k
    by (induction k) (simp_all add: again)
  with r show ?thesis by simp
qed

text \<open>
  Claim C6 says that \<open>release\<close> never raises, on any camera-source object. The
  industrial-camera constructor called with index 1 and one device enumerated raises
  the device-count error before it assigns \<open>self.camera\<close>; \<open>__del__\<close> then calls
  \<open>release\<close> on the object it leaves behind, and \<open>release\<close> raises an AttributeError.
  The webcam constructor assigns its handle before it raises, and \<open>release\<close> on the
  object it leaves returns.
\<close>

theorem release_unassigned_camera_raises:
  "basler_init 1 1 True = ([], Inl ValueError_DeviceCount) \<and>
   basler_object 1 1 True = BaslerUnassigned \<and>
   release (basler_object 1 1 True) = ([], Inl AttributeError) \<and>
   release (webcam_object False) = ([], Inr (webcam_object False))"
  by (simp add: basler_init_def basler_object_def webcam_object_def webcam_release_def)

lemma release_examples:
  "release_times 3 (Basler \<lparr>camera = \<lparr>device = 0, is_open = True, is_grabbing = True\<rparr>\<rparr>) =
     ([StopGrabbing 0, CameraClose 0],
      Inr (Basler \<lparr>camera = \<lparr>device = 0, is_open = False, is_grabbing = False\<rparr>\<rparr>)) \<and>
   release_times 2 (WebCam \<lparr>vid_is_opened = True\<rparr>) =
     ([VideoCaptureRelease], Inr (WebCam \<lparr>vid_is_opened = False\<rparr>))"
  by (simp add: numeral_3_eq_3 numeral_2_eq_2 basler_release_def webcam_release_def)

text \<open>
  Claim C4, as the code has it. While grabbing is active, a timeout of
  \<open>RetrieveResult\<close> (5000 ms, with \<open>TimeoutHandling_ThrowException\<close>) leaves \<open>get_frame\<close> as
  a raised timeout exception, which \<open>get_frame\<close> does not catch. The failure return
  (flag false, no frame) is what a retrieved result whose grab did not succeed gives,
  and what any call gives while the camera is not grabbing; nothing else gives it.
\<close>

theorem basler_get_frame_outcomes:
  "(is_grabbing (camera c) \<longrightarrow>
      basler_get_frame c GrabTimedOut = Inl TimeoutException \<and>
      basler_get_frame c GrabFailed = Inr (False, None) \<and>
      basler_get_frame c (GrabOK img) =
        Inr (True, Some \<lparr>pixels = flip_horizontal img, drawn = []\<rparr>)) \<and>
   (\<not> is_grabbing (camera c) \<longrightarrow> basler_get_frame c g = Inr (False, None)) \<and>
   (basler_get_frame c g = Inr (False, None) \<longleftrightarrow> \<not> is_grabbing (camera c) \<or> g = GrabFailed)"
  by (auto simp: basler_get_frame_def retrieve_result_def split: grab.splits)

theorem basler_get_frame_outcomes_witness:
  "basler_get_frame \<lparr>camera = \<lparr>device = 0, is_open = True, is_grabbing = True\<rparr>\<rparr> GrabTimedOut
     = Inl TimeoutException \<and>
   basler_get_frame \<lparr>camera = \<lparr>device = 0, is_open = True, is_grabbing = True\<rparr>\<rparr> GrabFailed
     = Inr (False, None) \<and>
   basler_get_frame \<lparr>camera = \<lparr>device = 0, is_open = True, is_grabbing = True\<rparr>\<rparr>
     (GrabOK [[1, 2, 3], [4, 5, 6]])
     = Inr (True, Some \<lparr>pixels = [[3, 2, 1], [6, 5, 4]], drawn = []\<rparr>) \<and>
   basler_get_frame \<lparr>camera = \<lparr>device = 0, is_open = False, is_grabbing = False\<rparr>\<rparr> GrabTimedOut
     = Inr (False, None)"
  using basler_get_frame_outcomes [of
      "\<lparr>camera = \<lparr>device = 0, is_open = True, is_grabbing = True\<rparr>\<rparr>" "[[1, 2, 3], [4, 5, 6]]"
      GrabTimedOut]
    basler_get_frame_outcomes [of
      "\<lparr>camera = \<lparr>device = 0, is_open = False, is_grabbing = False\<rparr>\<rparr>" "[]" GrabTimedOut]
  by (simp add: flip_horizontal_def)

text \<open>The claim as it was stated, a failure return on a timeout, fails on a grabbing camera.\<close>

theorem basler_get_frame_timeout_counterexample:
  "basler_get_frame \<lparr>camera = \<lparr>device = 0, is_open = True, is_grabbing = True\<rparr>\<rparr> GrabTimedOut
     \<noteq> Inr (False, None)"
  by (simp add: basler_get_frame_def retrieve_result_def)

section \<open>Properties of the configuration singleton\<close>

lemma get_config_fails:
  assumes "file_path s = Some fp" "fp \<noteq> []" "\<not> is_loaded s" "\<not> loadable f"
  shows "\<exists>s'. get_config s f = ([OpenFile fp], Inl (load_error f), s') \<and>
              file_path s' = Some fp \<and> \<not> is_loaded s'"
  using assms by (cases f) (auto simp: get_config_def load_config_def)

lemma get_config_loads:
  assumes "file_path s = Some fp" "fp \<noteq> []" "\<not> is_loaded s" "is_dict j"
  shows "get_config s (Parsed j) =
           ([OpenFile fp], Inr j, s\<lparr>config := Some j, is_loaded := True\<rparr>)"
  using assms by (simp add: get_config_def load_config_def)

lemma get_config_cached:
  assumes "is_loaded s" "config s = Some j"
  shows "get_config s f = ([], Inr j, s)"
  using assms by (simp add: get_config_def)

lemma accesses_cached:
  assumes "is_loaded s" "config s = Some j"
  shows "accesses s files = replicate (length files) ([], Inr j)"
  using assms by (induction files) (simp_all add: get_config_cached)

lemma accesses_until_loaded:
  assumes "file_path s = Some fp" "fp \<noteq> []" "\<not> is_loaded s"
    and "\<forall>f \<in> set pre. \<not> loadable f" and "is_dict j"
  shows "accesses s (pre @ Parsed j # post) =
           map (\<lambda>f. ([OpenFile fp], Inl (load_error f))) pre @
           ([OpenFile fp], Inr j) # replicate (length post) ([], Inr j)"
  using assms
proof (induction pre arbitrary: s)
  case Nil
  then show ?case
    by (simp add: get_config_loads accesses_cached)
next
  case (Cons f pre)
  then have "\<not> loadable f" by simp
  from get_config_fails [OF Cons.prems(1-3) this]
  obtain s' where g: "get_config s f = ([OpenFile fp], Inl (load_error f), s')"
    and p: "file_path s' = Some fp" and l: "\<not> is_loaded s'"
    by blast
  from Cons.prems have "\<forall>f \<in> set pre. \<not> loadable f" by simp
  from Cons.IH [OF p Cons.prems(2) l this Cons.prems(5)] g show ?case
    by simp
qed

text \<open>
  Claim C5, as the code has it. Take any sequence of accesses to the singleton
  constructed with a non-empty path. Every access before the first one that meets a
  file with a JSON mapping reads the file and raises; that access reads the file and
  returns the mapping; every later access returns this same value and does not read
  the file, whatever the file holds by then. So no read follows a successful one.
\<close>

theorem config_cached_after_first_load:
  assumes "fp \<noteq> []" and "\<forall>f \<in> set pre. \<not> loadable f" and "is_dict j"
  shows "accesses (ConfigLoader_new None (Some fp)) (pre @ Parsed j # post) =
           map (\<lambda>f. ([OpenFile fp], Inl (load_error f))) pre @
           ([OpenFile fp], Inr j) # replicate (length post) ([], Inr j)"
  using assms by (intro accesses_until_loaded) (simp_all add: ConfigLoader_new_def)

theorem config_cached_after_first_load_witness:
  "accesses (ConfigLoader_new None (Some ''resources/config.json''))
     [FileMissing, Parsed (JArray []),
      Parsed (JObject [(''video_source_main_camera'', JNumber 0)]),
      Malformed, Parsed (JObject [])] =
   [([OpenFile ''resources/config.json''], Inl Exception_ConfigNotFound),
    ([OpenFile ''resources/config.json''], Inl ValueError_NotADict),
    ([OpenFile ''resources/config.json''],
       Inr (JObject [(''video_source_main_camera'', JNumber 0)])),
    ([], Inr (JObject [(''video_source_main_camera'', JNumber 0)])),
    ([], Inr (JObject [(''video_source_main_camera'', JNumber 0)]))]"
  using config_cached_after_first_load [of "''resources/config.json''"
      "[FileMissing, Parsed (JArray [])]"
      "JObject [(''video_source_main_camera'', JNumber 0)]"
      "[Malformed, Parsed (JObject [])]"]
  by simp

text \<open>
  The claim as it was stated, at most one read over any sequence of accesses, fails when
  the first load fails: the loaded flag is only set after a successful load, so the
  next access reads the file again.
\<close>

theorem config_read_once_counterexample:
  "\<not> length (concat (map fst
        (accesses (ConfigLoader_new None (Some ''resources/config.json''))
           [Malformed, Malformed]))) \<le> 1"
  by (simp add: ConfigLoader_new_def get_config_def load_config_def)

end
